theory Spec2Isabelle
  imports Complex_Main "HOL-Library.Word" "HOL-Library.Code_Target_Nat"
begin

unbundle bit_operations_syntax

section \<open>InfiniteYou Gradio demo (app.py): the pipeline cache, seeds and saved files\<close>

text \<open>
  The embedding follows \<^verbatim>\<open>src/app.py\<close>. The module keeps one global dictionary,
  \<^verbatim>\<open>loaded_pipeline_config\<close>, holding the last requested options and the resident
  pipeline object; \<^verbatim>\<open>prepare_pipeline\<close> decides between returning the resident
  object, swapping its LoRA adapters, and building a new object; \<^verbatim>\<open>generate_image\<close>
  picks the seed, calls the pipeline and writes the image under \<^verbatim>\<open>./results\<close>.

  Global state is passed explicitly. Every raise of the source is a value \<open>Inl e\<close>.
  What the libraries outside this file do (whether the pipeline constructor raises, the
  number \<^verbatim>\<open>torch.seed()\<close> returns, what the pipeline call produces) is read from
  a record of outcomes given to each call.
\<close>

subsection \<open>Python strings and number formatting\<close>

text \<open>
  A Python \<^verbatim>\<open>str\<close> is a sequence of Unicode code points, so a prompt is a list of
  code points (an emoji is one element, as it is one \<^verbatim>\<open>c\<close> of the generator
  expression on line 184). ASCII literals of the source are written with \<open>lit\<close>.
\<close>

type_synonym pystr = "nat list"

definition lit :: "string \<Rightarrow> pystr" where
  "lit cs = map of_char cs"

text \<open>\<^verbatim>\<open>str(n)\<close> for a non-negative integer: decimal digits, most significant first.\<close>

fun str_nat :: "nat \<Rightarrow> pystr" where
  "str_nat n = (if n < 10 then [48 + n] else str_nat (n div 10) @ [48 + n mod 10])"

declare str_nat.simps [simp del]

text \<open>\<^verbatim>\<open>str(i)\<close> for a Python int.\<close>

definition str_int :: "int \<Rightarrow> pystr" where
  "str_int i = (if i < 0 then 45 # str_nat (nat (- i)) else str_nat (nat i))"

text \<open>\<^verbatim>\<open>f"{index:05d}"\<close> for a non-negative index: zero-padded to a width of at least 5.\<close>

definition format_05d :: "nat \<Rightarrow> pystr" where
  "format_05d n = replicate (5 - length (str_nat n)) 48 @ str_nat n"

text \<open>
  \<^verbatim>\<open>c.isalnum()\<close>. On ASCII it is true of the digits and the letters. Beyond
  ASCII it follows the Unicode character database, which is taken as the parameter \<open>U\<close>.
\<close>

definition isalnum :: "(nat \<Rightarrow> bool) \<Rightarrow> nat \<Rightarrow> bool" where
  "isalnum U c =
     (if c < 128 then (48 \<le> c \<and> c \<le> 57) \<or> (65 \<le> c \<and> c \<le> 90) \<or> (97 \<le> c \<and> c \<le> 122)
      else U c)"

text \<open>\<^verbatim>\<open>s.replace(' ', '_')\<close>, \<^verbatim>\<open>s.strip('_')\<close>.\<close>

definition replace_space :: "pystr \<Rightarrow> pystr" where
  "replace_space s = map (\<lambda>c. if c = 32 then 95 else c) s"

definition strip_underscore :: "pystr \<Rightarrow> pystr" where
  "strip_underscore s = rev (dropWhile (\<lambda>c. c = 95) (rev (dropWhile (\<lambda>c. c = 95) s)))"

text \<open>
  Line 184:
  \<^verbatim>\<open>''.join(c if c.isalnum() or c in '_-' else '_' for c in prompt[:50].replace(' ', '_')).strip('_')\<close>
\<close>

definition prompt_name :: "(nat \<Rightarrow> bool) \<Rightarrow> pystr \<Rightarrow> pystr" where
  "prompt_name U prompt =
     strip_underscore
       (map (\<lambda>c. if isalnum U c \<or> c = 95 \<or> c = 45 then c else 95)
            (replace_space (take 50 prompt)))"

text \<open>Line 185: \<^verbatim>\<open>f"{index:05d}_{prompt_name}_seed{seed}.png"\<close>.\<close>

definition out_name :: "(nat \<Rightarrow> bool) \<Rightarrow> nat \<Rightarrow> pystr \<Rightarrow> int \<Rightarrow> pystr" where
  "out_name U index prompt seed =
     format_05d index @ lit ''_'' @ prompt_name U prompt @ lit ''_seed'' @ str_int seed
       @ lit ''.png''"

definition OUTPUT_DIR :: pystr where
  "OUTPUT_DIR = lit ''./results''"

subsection \<open>The pipeline object and the module's global state\<close>

datatype exn = KeyError string | Exception string

text \<open>
  Modelled from the spec: \<^verbatim>\<open>InfUFluxPipeline\<close> (pipelines/pipeline_infu_flux.py) is
  not part of the source at hand. The spec describes the resident pipeline as a handle
  tagged with the variant, \<^verbatim>\<open>quantized\<close> and \<^verbatim>\<open>cpuOffload\<close> it was built with,
  plus the set of adapters attached to it. \<open>obj_id\<close> is the identity of the Python
  object, so that "the same instance" can be told from "a new instance".
\<close>

record InfUFluxPipeline =
  obj_id :: nat
  obj_model_version :: string
  obj_quantize_8bit :: bool
  obj_cpu_offload :: bool
  adapters :: "string list"

text \<open>
  The value under the key \<^verbatim>\<open>'pipeline'\<close> of \<^verbatim>\<open>loaded_pipeline_config\<close>:
  \<^verbatim>\<open>None\<close>, a pipeline object, or no entry at all after
  \<^verbatim>\<open>del loaded_pipeline_config['pipeline']\<close> (line 103).
\<close>

datatype slot = Missing | PyNone | Obj InfUFluxPipeline

record config =
  model_version :: string
  enable_realism :: bool
  enable_anti_blur :: bool
  quantize_8bit :: bool
  cpu_offload :: bool
  pipeline :: slot

text \<open>
  The calls into torch and the pipeline library, in the order the source makes them.
  \<open>Release i\<close> stands for lines 102 to 105 (both references to object \<open>i\<close> deleted,
  \<^verbatim>\<open>gc.collect()\<close>, \<^verbatim>\<open>torch.cuda.empty_cache()\<close>); \<open>Construct\<close> for a
  constructor call on line 110 that returned object \<open>i\<close>, \<open>ConstructRaised\<close> for one
  that raised; the other two for lines 123 and 129.
\<close>

type_synonym lora = "string \<times> string \<times> real"

datatype event =
    Release nat
  | Construct nat string bool bool
  | ConstructRaised string bool bool
  | DeleteAdapters nat "string list"
  | LoadLoras nat "lora list"

type_synonym image = nat

record state =
  models_downloaded :: bool
  loaded_pipeline_config :: config
  results_dir :: "(pystr \<times> image) list option"
  stdout :: "string list"
  next_obj :: nat
  trace :: "event list"

text \<open>The arguments of the pipeline call on lines 167 to 180.\<close>

record call_args =
  arg_id_image :: "image option"
  arg_prompt :: pystr
  arg_control_image :: "image option"
  arg_seed :: int
  arg_width :: int
  arg_height :: int
  arg_guidance_scale :: real
  arg_num_steps :: int
  arg_infusenet_conditioning_scale :: real
  arg_infusenet_guidance_start :: real
  arg_infusenet_guidance_end :: real
  arg_cpu_offload :: bool

text \<open>
  What the world outside app.py answers during one request: \<open>None\<close> means that the
  call returns normally, \<open>Some e\<close> that it raises \<open>e\<close>.
\<close>

record env =
  snapshot_infu :: "exn option"
  snapshot_flux :: "exn option"
  ctor :: "exn option"
  torch_seed :: "64 word"
  run_pipeline :: "InfUFluxPipeline \<Rightarrow> call_args \<Rightarrow> exn + image"
  save_raises :: "exn option"
  unicode_alnum :: "nat \<Rightarrow> bool"

text \<open>Lines 42 and 55 to 62: the state of a fresh process (no results directory yet).\<close>

definition init_config :: config where
  "init_config = \<lparr>model_version = ''aes_stage2'', enable_realism = False,
     enable_anti_blur = False, quantize_8bit = False, cpu_offload = False,
     pipeline = PyNone\<rparr>"

definition init_state :: state where
  "init_state = \<lparr>models_downloaded = False, loaded_pipeline_config = init_config,
     results_dir = None, stdout = [], next_obj = 0, trace = []\<rparr>"

definition QUANTIZE_8BIT_DEFAULT :: bool where "QUANTIZE_8BIT_DEFAULT = True"
definition CPU_OFFLOAD_DEFAULT :: bool where "CPU_OFFLOAD_DEFAULT = True"

definition print :: "string \<Rightarrow> state \<Rightarrow> state" where
  "print line s = s\<lparr>stdout := stdout s @ [line]\<rparr>"

definition emit :: "event \<Rightarrow> state \<Rightarrow> state" where
  "emit e s = s\<lparr>trace := trace s @ [e]\<rparr>"

definition set_pipeline :: "slot \<Rightarrow> state \<Rightarrow> state" where
  "set_pipeline v s =
     s\<lparr>loaded_pipeline_config := (loaded_pipeline_config s)\<lparr>pipeline := v\<rparr>\<rparr>"

subsection \<open>download_models (lines 64 to 79)\<close>

definition str_exn :: "exn \<Rightarrow> string" where
  "str_exn e = (case e of KeyError k \<Rightarrow> [CHR 0x27] @ k @ [CHR 0x27] | Exception m \<Rightarrow> m)"

definition download_models :: "env \<Rightarrow> state \<Rightarrow> (exn + unit) \<times> state" where
  "download_models env s =
     (if \<not> models_downloaded s then
        (case snapshot_infu env of
           Some e \<Rightarrow> (Inl e, s)
         | None \<Rightarrow>
            (case snapshot_flux env of
               Some e \<Rightarrow>
                 (Inl (Exception ''Model download failed''),
                  print (CHR 0x0A # ''You can also download it manually from HuggingFace and put it in `./models/InfiniteYou`, or you can modify `base_model_path` in `app.py` to specify the correct path.'')
                   (print (CHR 0x0A # ''You are downloading `black-forest-labs/FLUX.1-dev` to `./models/FLUX.1-dev` but failed. Please accept the agreement and obtain access at https://huggingface.co/black-forest-labs/FLUX.1-dev. Then, use `huggingface-cli login` and your access tokens at https://huggingface.co/settings/tokens to authenticate. After that, run the code again.'')
                     (print (str_exn e) s)))
             | None \<Rightarrow> (Inr (), s\<lparr>models_downloaded := True\<rparr>)))
      else (Inr (), s))"

subsection \<open>prepare_pipeline (lines 81 to 131)\<close>

text \<open>
  Lines 98 to 121, entered with the local variable \<^verbatim>\<open>pipeline\<close> already read from
  the dictionary (\<open>None\<close> for Python's \<^verbatim>\<open>None\<close>). The constructor is asked for
  \<open>model_version\<close>, \<open>quantize_8bit\<close> and \<open>cpu_offload\<close>; the new object gets the next
  free identity.
\<close>

definition switch_model ::
  "env \<Rightarrow> state \<Rightarrow> InfUFluxPipeline option \<Rightarrow> string \<Rightarrow> bool \<Rightarrow> bool
     \<Rightarrow> (exn + InfUFluxPipeline) \<times> state" where
  "switch_model env s pl mv q8 co =
     (if pl = None \<or> obj_model_version (the pl) \<noteq> mv then
        let s1 = print (''Switching model to '' @ mv) s;
            s2 = (case pl of
                    None \<Rightarrow> s1
                  | Some p \<Rightarrow> emit (Release (obj_id p)) (set_pipeline Missing s1));
            model_path = ''./models/InfiniteYou/infu_flux_v1.0/'' @ mv;
            s3 = print (''Loading model from '' @ model_path) s2
        in (case ctor env of
              Some e \<Rightarrow> (Inl e, emit (ConstructRaised mv q8 co) s3)
            | None \<Rightarrow>
                let p = \<lparr>obj_id = next_obj s3, obj_model_version = mv,
                         obj_quantize_8bit = q8, obj_cpu_offload = co, adapters = []\<rparr>;
                    s4 = emit (Construct (obj_id p) mv q8 co) (s3\<lparr>next_obj := Suc (next_obj s3)\<rparr>)
                in (Inr p, set_pipeline (Obj p) s4))
      else (Inr (the pl), s))"

text \<open>Lines 124 to 128: the list handed to \<^verbatim>\<open>load_loras\<close>.\<close>

definition loras_for :: "bool \<Rightarrow> bool \<Rightarrow> lora list" where
  "loras_for er ab =
     (if er then [(''./models/InfiniteYou/supports/optional_loras/flux_realism_lora.safetensors'',
                   ''realism'', 1)] else [])
     @ (if ab then [(''./models/InfiniteYou/supports/optional_loras/flux_anti_blur_lora.safetensors'',
                     ''anti_blur'', 1)] else [])"

text \<open>
  Modelled from the spec: \<^verbatim>\<open>pipe.delete_adapters\<close> and \<^verbatim>\<open>load_loras\<close> belong
  to the pipeline class, which is not part of the source at hand. The spec defines
  detaching and attaching as in-place changes of the adapter set of the live object.
\<close>

definition delete_adapters :: "string list \<Rightarrow> InfUFluxPipeline \<Rightarrow> InfUFluxPipeline" where
  "delete_adapters names p = p\<lparr>adapters := filter (\<lambda>a. a \<notin> set names) (adapters p)\<rparr>"

definition load_loras :: "lora list \<Rightarrow> InfUFluxPipeline \<Rightarrow> InfUFluxPipeline" where
  "load_loras loras p = p\<lparr>adapters := adapters p @ map (\<lambda>l. fst (snd l)) loras\<rparr>"

text \<open>
  Lines 123 to 131. The object is changed in place, and the dictionary refers to the
  same object, so the entry shows the change too.
\<close>

definition swap_loras ::
  "state \<Rightarrow> InfUFluxPipeline \<Rightarrow> bool \<Rightarrow> bool \<Rightarrow> InfUFluxPipeline \<times> state" where
  "swap_loras s p er ab =
     (let names = [''realism'', ''anti_blur''];
          p1 = delete_adapters names p;
          s1 = emit (DeleteAdapters (obj_id p) names) s;
          loras = loras_for er ab;
          p2 = load_loras loras p1;
          s2 = emit (LoadLoras (obj_id p) loras) s1
      in (p2, set_pipeline (Obj p2) s2))"

text \<open>Lines 92 to 96.\<close>

definition record_request :: "state \<Rightarrow> string \<Rightarrow> bool \<Rightarrow> bool \<Rightarrow> bool \<Rightarrow> bool \<Rightarrow> state" where
  "record_request s mv er ab q8 co =
     s\<lparr>loaded_pipeline_config := (loaded_pipeline_config s)
         \<lparr>enable_realism := er, enable_anti_blur := ab, quantize_8bit := q8,
          cpu_offload := co, model_version := mv\<rparr>\<rparr>"

text \<open>Lines 92 to 131, after the test on lines 82 to 89 has failed.\<close>

definition reload ::
  "env \<Rightarrow> state \<Rightarrow> InfUFluxPipeline option \<Rightarrow> string \<Rightarrow> bool \<Rightarrow> bool \<Rightarrow> bool \<Rightarrow> bool
     \<Rightarrow> (exn + InfUFluxPipeline) \<times> state" where
  "reload env s pl mv er ab q8 co =
     (case switch_model env (record_request s mv er ab q8 co) pl mv q8 co of
        (Inl e, s') \<Rightarrow> (Inl e, s')
      | (Inr p, s') \<Rightarrow> (case swap_loras s' p er ab of (p', s'') \<Rightarrow> (Inr p', s'')))"

text \<open>Lines 84 to 88: the recorded options are the requested ones.\<close>

definition same_request :: "config \<Rightarrow> string \<Rightarrow> bool \<Rightarrow> bool \<Rightarrow> bool \<Rightarrow> bool \<Rightarrow> bool" where
  "same_request c mv er ab q8 co =
     (enable_realism c = er \<and> enable_anti_blur c = ab \<and> quantize_8bit c = q8
      \<and> cpu_offload c = co \<and> mv = model_version c)"

text \<open>
  The whole function. Reading \<^verbatim>\<open>loaded_pipeline_config['pipeline']\<close> on line 83
  raises \<^verbatim>\<open>KeyError\<close> when the entry has been deleted; with \<^verbatim>\<open>None\<close> there the
  test fails at once and the options are not compared.
\<close>

definition prepare_pipeline ::
  "env \<Rightarrow> state \<Rightarrow> string \<Rightarrow> bool \<Rightarrow> bool \<Rightarrow> bool \<Rightarrow> bool
     \<Rightarrow> (exn + InfUFluxPipeline) \<times> state" where
  "prepare_pipeline env s mv er ab q8 co =
     (case pipeline (loaded_pipeline_config s) of
        Missing \<Rightarrow> (Inl (KeyError ''pipeline''), s)
      | PyNone \<Rightarrow> reload env s None mv er ab q8 co
      | Obj p \<Rightarrow>
          if same_request (loaded_pipeline_config s) mv er ab q8 co
          then (Inr p, s)
          else reload env s (Some p) mv er ab q8 co)"

subsection \<open>generate_image (lines 133 to 192)\<close>

text \<open>
  \<^verbatim>\<open>image.save(out_path)\<close> creates the file or, when a file of that name exists,
  replaces its content. The results directory is a list of named files.
\<close>

definition write_file :: "(pystr \<times> image) list \<Rightarrow> pystr \<Rightarrow> image \<Rightarrow> (pystr \<times> image) list" where
  "write_file files name img =
     (if name \<in> fst ` set files
      then map (\<lambda>(k, v). if k = name then (k, img) else (k, v)) files
      else files @ [(name, img)])"

text \<open>\<^verbatim>\<open>os.makedirs(OUTPUT_DIR, exist_ok=True)\<close>: an absent directory becomes an empty one.\<close>

definition makedirs :: "(pystr \<times> image) list option \<Rightarrow> (pystr \<times> image) list" where
  "makedirs d = (case d of None \<Rightarrow> [] | Some files \<Rightarrow> files)"

text \<open>Lines 182 to 187. The result is \<^verbatim>\<open>out_path\<close> and the directory afterwards.\<close>

definition save_image ::
  "(nat \<Rightarrow> bool) \<Rightarrow> (pystr \<times> image) list option \<Rightarrow> image \<Rightarrow> pystr \<Rightarrow> int
     \<Rightarrow> pystr \<times> (pystr \<times> image) list option" where
  "save_image U d img prompt seed =
     (let files = makedirs d;
          index = length files;
          name = out_name U index prompt seed;
          out_path = OUTPUT_DIR @ lit ''/'' @ name
      in (out_path, Some (write_file files name img)))"

text \<open>
  The first output of the handler: \<^verbatim>\<open>gr.update(value=image, label=...)\<close> or the
  empty \<^verbatim>\<open>gr.update()\<close>, which leaves the image component as it is.
\<close>

datatype ui_update = Update image pystr | NoUpdate

text \<open>Lines 163 and 164: \<^verbatim>\<open>torch.seed()\<close> returns a 64-bit number.\<close>

definition pick_seed :: "env \<Rightarrow> int \<Rightarrow> int" where
  "pick_seed env seed = (if seed = 0 then uint (torch_seed env AND 0xFFFFFFFF) else seed)"

text \<open>
  The handler. An exception of \<^verbatim>\<open>download_models\<close> or \<^verbatim>\<open>prepare_pipeline\<close>
  leaves the function (they are called before the \<^verbatim>\<open>try\<close>). Inside the
  \<^verbatim>\<open>try\<close>, an exception is printed and the function returns normally with the
  empty update. Line 191 builds a \<^verbatim>\<open>gr.Error\<close> object and drops it: the class is an
  exception, and it is not raised, so the line has no effect.
\<close>

definition generate_image ::
  "env \<Rightarrow> state \<Rightarrow> image option \<Rightarrow> image option \<Rightarrow> pystr \<Rightarrow> int \<Rightarrow> int \<Rightarrow> int \<Rightarrow> real \<Rightarrow> int
     \<Rightarrow> real \<Rightarrow> real \<Rightarrow> real \<Rightarrow> bool \<Rightarrow> bool \<Rightarrow> bool \<Rightarrow> bool \<Rightarrow> string
     \<Rightarrow> (exn + ui_update \<times> pystr) \<times> state" where
  "generate_image env s input_image control_image prompt seed width height guidance_scale
       num_steps conditioning_scale guidance_start guidance_end er ab q8 co mv =
     (case download_models env s of
        (Inl e, s1) \<Rightarrow> (Inl e, s1)
      | (Inr _, s1) \<Rightarrow>
         (case prepare_pipeline env s1 mv er ab q8 co of
            (Inl e, s2) \<Rightarrow> (Inl e, s2)
          | (Inr p, s2) \<Rightarrow>
              let seed' = pick_seed env seed in
              (case run_pipeline env p
                      \<lparr>arg_id_image = input_image, arg_prompt = prompt,
                       arg_control_image = control_image, arg_seed = seed',
                       arg_width = width, arg_height = height,
                       arg_guidance_scale = guidance_scale, arg_num_steps = num_steps,
                       arg_infusenet_conditioning_scale = conditioning_scale,
                       arg_infusenet_guidance_start = guidance_start,
                       arg_infusenet_guidance_end = guidance_end,
                       arg_cpu_offload = co\<rparr> of
                 Inl e \<Rightarrow> (Inr (NoUpdate, str_int seed'), print (str_exn e) s2)
               | Inr img \<Rightarrow>
                   (case save_raises env of
                      Some e \<Rightarrow>
                        (Inr (NoUpdate, str_int seed'),
                         print (str_exn e) (s2\<lparr>results_dir := Some (makedirs (results_dir s2))\<rparr>))
                    | None \<Rightarrow>
                        (case save_image (unicode_alnum env) (results_dir s2) img prompt seed' of
                           (out_path, d') \<Rightarrow>
                             (Inr (Update img
                                     (lit ''Generated Image, seed='' @ str_int seed'
                                        @ lit '', saved to '' @ out_path),
                                   str_int seed'),
                              s2\<lparr>results_dir := d'\<rparr>))))))"

text \<open>Lines 194 to 199.\<close>

definition generate_examples ::
  "env \<Rightarrow> state \<Rightarrow> image option \<Rightarrow> image option \<Rightarrow> pystr \<Rightarrow> int \<Rightarrow> bool \<Rightarrow> bool \<Rightarrow> string
     \<Rightarrow> (exn + ui_update \<times> pystr) \<times> state" where
  "generate_examples env s id_img control_img prompt_text seed er ab mv =
     generate_image env s id_img control_img prompt_text seed 864 1152 3.5 30 1.0 0.0 1.0
       er ab QUANTIZE_8BIT_DEFAULT CPU_OFFLOAD_DEFAULT mv"

section \<open>Notions used to state the properties\<close>

subsection \<open>Reading the trace\<close>

text \<open>
  The objects alive after a run of events: a successful construction adds its object,
  a release removes it.
\<close>

fun resident_step :: "nat list \<Rightarrow> event \<Rightarrow> nat list" where
  "resident_step r (Construct i mv q8 co) = r @ [i]"
| "resident_step r (Release i) = removeAll i r"
| "resident_step r _ = r"

definition resident :: "event list \<Rightarrow> nat list" where
  "resident tr = foldl resident_step [] tr"

text \<open>At every point of the run, starting with the objects \<open>r\<close>, at most one is alive.\<close>

fun one_at_a_time :: "nat list \<Rightarrow> event list \<Rightarrow> bool" where
  "one_at_a_time r [] = (length r \<le> 1)"
| "one_at_a_time r (e # es) = (length r \<le> 1 \<and> one_at_a_time (resident_step r e) es)"

definition never_two :: "event list \<Rightarrow> bool" where
  "never_two tr = one_at_a_time [] tr"

text \<open>The number of completed constructions in a trace.\<close>

definition constructs :: "event list \<Rightarrow> nat" where
  "constructs tr =
     length (filter (\<lambda>e. case e of Construct i mv q8 co \<Rightarrow> True | _ \<Rightarrow> False) tr)"

subsection \<open>Invariants of the global state\<close>

text \<open>The resident object was built for the recorded model version.\<close>

definition tagged :: "state \<Rightarrow> bool" where
  "tagged s = (case pipeline (loaded_pipeline_config s) of
                 Obj p \<Rightarrow> obj_model_version p = model_version (loaded_pipeline_config s)
               | _ \<Rightarrow> True)"

definition slot_ids :: "slot \<Rightarrow> nat list" where
  "slot_ids v = (case v of Obj p \<Rightarrow> [obj_id p] | _ \<Rightarrow> [])"

text \<open>
  The trace and the dictionary agree: the objects alive are exactly the one the
  dictionary holds, there never were two, and identities not yet handed out are unused.
\<close>

definition wf :: "state \<Rightarrow> bool" where
  "wf s = (tagged s \<and> never_two (trace s)
           \<and> resident (trace s) = slot_ids (pipeline (loaded_pipeline_config s))
           \<and> (case pipeline (loaded_pipeline_config s) of
                 Obj p \<Rightarrow> obj_id p < next_obj s | _ \<Rightarrow> True))"

subsection \<open>The outcomes of lines 92 to 131\<close>

text \<open>The object after lines 123 to 129.\<close>

definition with_loras :: "bool \<Rightarrow> bool \<Rightarrow> InfUFluxPipeline \<Rightarrow> InfUFluxPipeline" where
  "with_loras er ab p =
     load_loras (loras_for er ab) (delete_adapters [''realism'', ''anti_blur''] p)"

text \<open>The state after a call that kept the resident object \<open>p\<close> and swapped its adapters.\<close>

definition after_swap ::
  "state \<Rightarrow> InfUFluxPipeline \<Rightarrow> string \<Rightarrow> bool \<Rightarrow> bool \<Rightarrow> bool \<Rightarrow> bool \<Rightarrow> state" where
  "after_swap s p mv er ab q8 co =
     set_pipeline (Obj (with_loras er ab p))
       (emit (LoadLoras (obj_id p) (loras_for er ab))
         (emit (DeleteAdapters (obj_id p) [''realism'', ''anti_blur''])
           (record_request s mv er ab q8 co)))"

definition release_of :: "InfUFluxPipeline option \<Rightarrow> event list" where
  "release_of pl = (case pl of None \<Rightarrow> [] | Some p \<Rightarrow> [Release (obj_id p)])"

definition new_obj :: "nat \<Rightarrow> string \<Rightarrow> bool \<Rightarrow> bool \<Rightarrow> InfUFluxPipeline" where
  "new_obj i mv q8 co = \<lparr>obj_id = i, obj_model_version = mv, obj_quantize_8bit = q8,
     obj_cpu_offload = co, adapters = []\<rparr>"

subsection \<open>File names\<close>

definition is_digit :: "nat \<Rightarrow> bool" where
  "is_digit c = (48 \<le> c \<and> c \<le> 57)"

text \<open>The number a string of decimal digits denotes, leading zeros allowed.\<close>

definition digits_value :: "pystr \<Rightarrow> nat" where
  "digits_value ds = foldl (\<lambda>a d. 10 * a + (d - 48)) 0 ds"

text \<open>The sequence number of a saved file: the number its name starts with.\<close>

definition sequence_number :: "pystr \<Rightarrow> nat" where
  "sequence_number name = digits_value (takeWhile is_digit name)"

text \<open>
  The sanitized prompt prefix in the words of the specification: the prompt truncated
  to a bounded prefix (50 code points), every character that is not alphanumeric,
  \<^verbatim>\<open>_\<close> or \<^verbatim>\<open>-\<close> replaced by \<^verbatim>\<open>_\<close>, leading and trailing \<^verbatim>\<open>_\<close> stripped.
  The source's \<open>prompt_name\<close> has a further pass that turns spaces into \<^verbatim>\<open>_\<close>.
\<close>

definition allowed_char :: "(nat \<Rightarrow> bool) \<Rightarrow> nat \<Rightarrow> bool" where
  "allowed_char U c = (isalnum U c \<or> c = 95 \<or> c = 45)"

definition sanitized_prefix :: "(nat \<Rightarrow> bool) \<Rightarrow> pystr \<Rightarrow> pystr" where
  "sanitized_prefix U p =
     strip_underscore (map (\<lambda>c. if allowed_char U c then c else 95) (take 50 p))"

text \<open>
  A run of successful saves, one after the other: lines 182 to 187 for each image,
  prompt and seed of the list, each on the directory the one before left.
\<close>

fun save_all ::
  "(nat \<Rightarrow> bool) \<Rightarrow> (pystr \<times> image) list option \<Rightarrow> (image \<times> pystr \<times> int) list
     \<Rightarrow> (pystr \<times> image) list option" where
  "save_all U d [] = d"
| "save_all U d ((img, p, sd) # rest) = save_all U (snd (save_image U d img p sd)) rest"

text \<open>The files such a run is expected to leave when the first index is \<open>k\<close>.\<close>

definition expected_files ::
  "(nat \<Rightarrow> bool) \<Rightarrow> nat \<Rightarrow> (image \<times> pystr \<times> int) list \<Rightarrow> (pystr \<times> image) list" where
  "expected_files U k reqs =
     map (\<lambda>(i, img, p, sd). (out_name U i p sd, img)) (enumerate k reqs)"

subsection \<open>Concrete requests\<close>

text \<open>
  A world in which every download, construction, generation and save succeeds, the
  generated image is number 5, and \<^verbatim>\<open>torch.seed()\<close> returns \<open>2 ^ 32\<close>.
\<close>

definition demo_env :: env where
  "demo_env = \<lparr>snapshot_infu = None, snapshot_flux = None, ctor = None,
     torch_seed = 0x100000000, run_pipeline = (\<lambda>p a. Inr 5), save_raises = None,
     unicode_alnum = (\<lambda>c. False)\<rparr>"

text \<open>The same world with the constructor raising, and with the pipeline call raising.\<close>

definition no_weights_env :: env where
  "no_weights_env = demo_env\<lparr>ctor := Some (Exception ''weights missing'')\<rparr>"

definition no_face_env :: env where
  "no_face_env = demo_env\<lparr>run_pipeline := (\<lambda>p a. Inl (Exception ''No face detected''))\<rparr>"

text \<open>
  The first request of a fresh process, with the defaults of the form
  (\<^verbatim>\<open>aes_stage2\<close>, no LoRA, 8-bit quantization and CPU offloading on), the object it
  builds and the state it leaves.
\<close>

definition first_obj :: InfUFluxPipeline where
  "first_obj = \<lparr>obj_id = 0, obj_model_version = ''aes_stage2'', obj_quantize_8bit = True,
     obj_cpu_offload = True, adapters = []\<rparr>"

definition after_first :: state where
  "after_first = snd (prepare_pipeline demo_env init_state ''aes_stage2'' False False True True)"

text \<open>A switch to \<^verbatim>\<open>sim_stage1\<close> after it, during which the constructor raises.\<close>

definition after_failed_switch :: state where
  "after_failed_switch =
     snd (prepare_pipeline no_weights_env after_first ''sim_stage1'' False False True True)"

text \<open>The very first request of a process, during which the constructor raises.\<close>

definition after_failed_start :: state where
  "after_failed_start =
     snd (prepare_pipeline no_weights_env init_state ''sim_stage1'' False False True True)"

text \<open>Three requests to save: a prompt with a slash, one with quotes and one with an emoji.\<close>

definition three_saves :: "(image \<times> pystr \<times> int) list" where
  "three_saves = [(1, lit ''a/b'', 7), (2, lit ''say \"hi\"'', 7), (3, [128512], 7)]"

text \<open>
  A results directory that already holds 100000 files, and the Unicode predicate that
  is false everywhere (every character beyond ASCII counts as not alphanumeric).
\<close>

definition full_dir :: "(pystr \<times> image) list option" where
  "full_dir = Some (map (\<lambda>i. (str_nat i @ lit ''.png'', 0)) [0..<100000])"

definition ascii_only :: "nat \<Rightarrow> bool" where
  "ascii_only c = False"

section \<open>Lemmas\<close>

subsection \<open>The trace\<close>

lemma one_at_a_time_append:
  "one_at_a_time r (xs @ ys) = (one_at_a_time r xs \<and> one_at_a_time (foldl resident_step r xs) ys)"
  by (induction xs arbitrary: r) (auto, (cases ys; simp)+)

lemma never_two_append:
  "never_two (xs @ ys) = (never_two xs \<and> one_at_a_time (resident xs) ys)"
  by (simp add: never_two_def resident_def one_at_a_time_append)

lemma resident_append: "resident (xs @ ys) = foldl resident_step (resident xs) ys"
  by (simp add: resident_def)

lemma constructs_append: "constructs (xs @ ys) = constructs xs + constructs ys"
  by (simp add: constructs_def)

subsection \<open>Reading fields through the state changes\<close>

lemma with_loras_sel [simp]:
  "obj_id (with_loras er ab p) = obj_id p"
  "obj_model_version (with_loras er ab p) = obj_model_version p"
  "obj_quantize_8bit (with_loras er ab p) = obj_quantize_8bit p"
  "obj_cpu_offload (with_loras er ab p) = obj_cpu_offload p"
  by (simp_all add: with_loras_def load_loras_def delete_adapters_def)

lemma new_obj_sel [simp]:
  "obj_id (new_obj i mv q8 co) = i"
  "obj_model_version (new_obj i mv q8 co) = mv"
  "obj_quantize_8bit (new_obj i mv q8 co) = q8"
  "obj_cpu_offload (new_obj i mv q8 co) = co"
  "adapters (new_obj i mv q8 co) = []"
  by (simp_all add: new_obj_def)

lemma emit_sel [simp]:
  "trace (emit e s) = trace s @ [e]"
  "loaded_pipeline_config (emit e s) = loaded_pipeline_config s"
  "next_obj (emit e s) = next_obj s"
  "stdout (emit e s) = stdout s"
  "results_dir (emit e s) = results_dir s"
  "models_downloaded (emit e s) = models_downloaded s"
  by (simp_all add: emit_def)

lemma print_sel [simp]:
  "trace (print l s) = trace s"
  "loaded_pipeline_config (print l s) = loaded_pipeline_config s"
  "next_obj (print l s) = next_obj s"
  "stdout (print l s) = stdout s @ [l]"
  "results_dir (print l s) = results_dir s"
  "models_downloaded (print l s) = models_downloaded s"
  by (simp_all add: print_def)

lemma set_pipeline_sel [simp]:
  "trace (set_pipeline v s) = trace s"
  "pipeline (loaded_pipeline_config (set_pipeline v s)) = v"
  "model_version (loaded_pipeline_config (set_pipeline v s)) = model_version (loaded_pipeline_config s)"
  "enable_realism (loaded_pipeline_config (set_pipeline v s)) = enable_realism (loaded_pipeline_config s)"
  "enable_anti_blur (loaded_pipeline_config (set_pipeline v s)) = enable_anti_blur (loaded_pipeline_config s)"
  "quantize_8bit (loaded_pipeline_config (set_pipeline v s)) = quantize_8bit (loaded_pipeline_config s)"
  "cpu_offload (loaded_pipeline_config (set_pipeline v s)) = cpu_offload (loaded_pipeline_config s)"
  "next_obj (set_pipeline v s) = next_obj s"
  "stdout (set_pipeline v s) = stdout s"
  "results_dir (set_pipeline v s) = results_dir s"
  "models_downloaded (set_pipeline v s) = models_downloaded s"
  by (simp_all add: set_pipeline_def)

lemma record_request_sel [simp]:
  "trace (record_request s mv er ab q8 co) = trace s"
  "pipeline (loaded_pipeline_config (record_request s mv er ab q8 co)) = pipeline (loaded_pipeline_config s)"
  "model_version (loaded_pipeline_config (record_request s mv er ab q8 co)) = mv"
  "enable_realism (loaded_pipeline_config (record_request s mv er ab q8 co)) = er"
  "enable_anti_blur (loaded_pipeline_config (record_request s mv er ab q8 co)) = ab"
  "quantize_8bit (loaded_pipeline_config (record_request s mv er ab q8 co)) = q8"
  "cpu_offload (loaded_pipeline_config (record_request s mv er ab q8 co)) = co"
  "next_obj (record_request s mv er ab q8 co) = next_obj s"
  "stdout (record_request s mv er ab q8 co) = stdout s"
  "results_dir (record_request s mv er ab q8 co) = results_dir s"
  "models_downloaded (record_request s mv er ab q8 co) = models_downloaded s"
  by (simp_all add: record_request_def)

lemma after_swap_sel [simp]:
  "trace (after_swap s p mv er ab q8 co) =
     trace s @ [DeleteAdapters (obj_id p) [''realism'', ''anti_blur''],
                LoadLoras (obj_id p) (loras_for er ab)]"
  "pipeline (loaded_pipeline_config (after_swap s p mv er ab q8 co)) = Obj (with_loras er ab p)"
  "same_request (loaded_pipeline_config (after_swap s p mv er ab q8 co)) mv er ab q8 co"
  "next_obj (after_swap s p mv er ab q8 co) = next_obj s"
  by (simp_all add: after_swap_def same_request_def)

subsection \<open>The ways through \<^verbatim>\<open>prepare_pipeline\<close>\<close>

lemma reload_keep:
  "obj_model_version p = mv \<Longrightarrow>
   reload env s (Some p) mv er ab q8 co = (Inr (with_loras er ab p), after_swap s p mv er ab q8 co)"
  by (simp add: reload_def switch_model_def swap_loras_def with_loras_def after_swap_def Let_def)

lemma reload_build:
  assumes "pl = None \<or> obj_model_version (the pl) \<noteq> mv" and "ctor env = None"
  shows "fst (reload env s pl mv er ab q8 co) = Inr (with_loras er ab (new_obj (next_obj s) mv q8 co))"
    and "trace (snd (reload env s pl mv er ab q8 co)) =
           trace s @ release_of pl @ [Construct (next_obj s) mv q8 co,
             DeleteAdapters (next_obj s) [''realism'', ''anti_blur''],
             LoadLoras (next_obj s) (loras_for er ab)]"
    and "pipeline (loaded_pipeline_config (snd (reload env s pl mv er ab q8 co))) =
           Obj (with_loras er ab (new_obj (next_obj s) mv q8 co))"
    and "same_request (loaded_pipeline_config (snd (reload env s pl mv er ab q8 co))) mv er ab q8 co"
    and "next_obj (snd (reload env s pl mv er ab q8 co)) = Suc (next_obj s)"
  using assms
  by (simp_all add: reload_def switch_model_def swap_loras_def with_loras_def new_obj_def
        release_of_def same_request_def Let_def split: option.split)

lemma reload_fail:
  assumes "pl = None \<or> obj_model_version (the pl) \<noteq> mv" and "ctor env = Some e"
  shows "fst (reload env s pl mv er ab q8 co) = Inl e"
    and "trace (snd (reload env s pl mv er ab q8 co)) =
           trace s @ release_of pl @ [ConstructRaised mv q8 co]"
    and "pipeline (loaded_pipeline_config (snd (reload env s pl mv er ab q8 co))) =
           (case pl of None \<Rightarrow> pipeline (loaded_pipeline_config s) | Some p \<Rightarrow> Missing)"
    and "next_obj (snd (reload env s pl mv er ab q8 co)) = next_obj s"
  using assms
  by (simp_all add: reload_def switch_model_def release_of_def Let_def split: option.split)

lemma prepare_Missing:
  "pipeline (loaded_pipeline_config s) = Missing \<Longrightarrow>
   prepare_pipeline env s mv er ab q8 co = (Inl (KeyError ''pipeline''), s)"
  by (simp add: prepare_pipeline_def)

lemma prepare_PyNone:
  "pipeline (loaded_pipeline_config s) = PyNone \<Longrightarrow>
   prepare_pipeline env s mv er ab q8 co = reload env s None mv er ab q8 co"
  by (simp add: prepare_pipeline_def)

lemma prepare_hit:
  "pipeline (loaded_pipeline_config s) = Obj p \<Longrightarrow>
   same_request (loaded_pipeline_config s) mv er ab q8 co \<Longrightarrow>
   prepare_pipeline env s mv er ab q8 co = (Inr p, s)"
  by (simp add: prepare_pipeline_def)

lemma prepare_miss:
  "pipeline (loaded_pipeline_config s) = Obj p \<Longrightarrow>
   \<not> same_request (loaded_pipeline_config s) mv er ab q8 co \<Longrightarrow>
   prepare_pipeline env s mv er ab q8 co = reload env s (Some p) mv er ab q8 co"
  by (simp add: prepare_pipeline_def)

lemma reload_post:
  assumes "reload env s pl mv er ab q8 co = (Inr p, s1)"
  shows "pipeline (loaded_pipeline_config s1) = Obj p
         \<and> same_request (loaded_pipeline_config s1) mv er ab q8 co
         \<and> obj_model_version p = mv"
proof (cases "pl = None \<or> obj_model_version (the pl) \<noteq> mv")
  case True
  show ?thesis
  proof (cases "ctor env")
    case None
    from reload_build [OF True None, of s er ab q8 co] assms(1) show ?thesis by simp
  next
    case (Some e)
    from reload_fail(1) [OF True Some, of s er ab q8 co] assms(1) show ?thesis by simp
  qed
next
  case False
  then obtain q where q: "pl = Some q" "obj_model_version q = mv" by auto
  from reload_keep [OF q(2), of env s er ab q8 co] assms(1) q show ?thesis by auto
qed

lemma prepare_post:
  assumes "tagged s" and "prepare_pipeline env s mv er ab q8 co = (Inr p, s1)"
  shows "pipeline (loaded_pipeline_config s1) = Obj p
         \<and> same_request (loaded_pipeline_config s1) mv er ab q8 co
         \<and> obj_model_version p = mv"
proof (cases "pipeline (loaded_pipeline_config s)")
  case Missing
  with assms(2) show ?thesis by (simp add: prepare_Missing)
next
  case PyNone
  with assms(2) have "reload env s None mv er ab q8 co = (Inr p, s1)"
    by (simp add: prepare_PyNone)
  then show ?thesis by (rule reload_post)
next
  case (Obj q)
  show ?thesis
  proof (cases "same_request (loaded_pipeline_config s) mv er ab q8 co")
    case True
    with Obj assms(2) have "p = q" "s1 = s" by (simp_all add: prepare_hit)
    with True Obj assms(1) show ?thesis by (simp add: tagged_def same_request_def)
  next
    case False
    with Obj assms(2) have "reload env s (Some q) mv er ab q8 co = (Inr p, s1)"
      by (simp add: prepare_miss)
    then show ?thesis by (rule reload_post)
  qed
qed

lemma prepare_slot:
  assumes "prepare_pipeline env s mv er ab q8 co = (Inr p, s1)"
  shows "pipeline (loaded_pipeline_config s1) = Obj p
         \<and> same_request (loaded_pipeline_config s1) mv er ab q8 co"
proof (cases "pipeline (loaded_pipeline_config s)")
  case Missing
  with assms show ?thesis by (simp add: prepare_Missing)
next
  case PyNone
  with assms have "reload env s None mv er ab q8 co = (Inr p, s1)"
    by (simp add: prepare_PyNone)
  from reload_post [OF this] show ?thesis by simp
next
  case (Obj q)
  show ?thesis
  proof (cases "same_request (loaded_pipeline_config s) mv er ab q8 co")
    case True
    with Obj assms have "p = q" "s1 = s" by (simp_all add: prepare_hit)
    with True Obj show ?thesis by simp
  next
    case False
    with Obj assms have "reload env s (Some q) mv er ab q8 co = (Inr p, s1)"
      by (simp add: prepare_miss)
    from reload_post [OF this] show ?thesis by simp
  qed
qed

lemma prepare_from_empty_constructs:
  assumes "prepare_pipeline env s mv er ab q8 co = (Inr p, s1)"
    and "pipeline (loaded_pipeline_config s) = PyNone"
  shows "constructs (trace s1) = constructs (trace s) + 1"
proof -
  from assms have r: "reload env s None mv er ab q8 co = (Inr p, s1)"
    by (simp add: prepare_PyNone)
  show ?thesis
  proof (cases "ctor env")
    case None
    have "trace s1 = trace (snd (reload env s None mv er ab q8 co))" by (simp add: r)
    also have "\<dots> = trace s @ release_of None @ [Construct (next_obj s) mv q8 co,
             DeleteAdapters (next_obj s) [''realism'', ''anti_blur''],
             LoadLoras (next_obj s) (loras_for er ab)]"
      by (rule reload_build(2)) (simp_all add: None)
    finally show ?thesis by (simp add: constructs_def release_of_def)
  next
    case (Some e)
    have "fst (reload env s None mv er ab q8 co) = Inl e"
      by (rule reload_fail(1)) (simp_all add: Some)
    with r show ?thesis by simp
  qed
qed

subsection \<open>The invariants hold in every state the process reaches\<close>

lemma wf_init: "wf init_state"
  by (simp add: wf_def tagged_def init_state_def init_config_def never_two_def resident_def slot_ids_def)

lemma reload_wf:
  assumes wf: "wf s"
    and pl: "(pl = None \<and> pipeline (loaded_pipeline_config s) = PyNone)
             \<or> (\<exists>q. pl = Some q \<and> pipeline (loaded_pipeline_config s) = Obj q)"
  shows "wf (snd (reload env s pl mv er ab q8 co))"
proof (cases "pl = None \<or> obj_model_version (the pl) \<noteq> mv")
  case True
  from wf pl have res: "foldl resident_step (resident (trace s)) (release_of pl) = []"
    by (auto simp: wf_def slot_ids_def release_of_def)
  from wf pl have one: "one_at_a_time (resident (trace s)) (release_of pl)"
    by (auto simp: wf_def slot_ids_def release_of_def)
  from wf have nt: "never_two (trace s)" by (simp add: wf_def)
  show ?thesis
  proof (cases "ctor env")
    case None
    note b = reload_build [OF True None, of s er ab q8 co]
    from b(4) have "model_version (loaded_pipeline_config (snd (reload env s pl mv er ab q8 co))) = mv"
      by (simp add: same_request_def)
    with b(2,3,5) res one nt show ?thesis
      by (simp add: wf_def tagged_def slot_ids_def never_two_append resident_append
            one_at_a_time_append)
  next
    case (Some e)
    note f = reload_fail [OF True Some, of s er ab q8 co]
    from pl f(3) have "pipeline (loaded_pipeline_config (snd (reload env s pl mv er ab q8 co))) = PyNone
       \<or> pipeline (loaded_pipeline_config (snd (reload env s pl mv er ab q8 co))) = Missing"
      by auto
    with f(2) res one nt show ?thesis
      by (auto simp: wf_def tagged_def slot_ids_def never_two_append resident_append
            one_at_a_time_append)
  qed
next
  case False
  with pl obtain q where q: "pl = Some q" "obj_model_version q = mv"
    "pipeline (loaded_pipeline_config s) = Obj q" by auto
  from wf q(3) have "resident (trace s) = [obj_id q]" "obj_id q < next_obj s" "never_two (trace s)"
    by (simp_all add: wf_def slot_ids_def)
  moreover have "model_version (loaded_pipeline_config (after_swap s q mv er ab q8 co)) = mv"
    using after_swap_sel(3) [of s q mv er ab q8 co] by (simp add: same_request_def)
  ultimately show ?thesis
    using q(1,2)
    by (simp add: reload_keep wf_def tagged_def slot_ids_def never_two_append resident_append)
qed

lemma prepare_wf:
  assumes "wf s"
  shows "wf (snd (prepare_pipeline env s mv er ab q8 co))"
proof (cases "pipeline (loaded_pipeline_config s)")
  case Missing
  with assms show ?thesis by (simp add: prepare_Missing)
next
  case PyNone
  with assms show ?thesis by (simp add: prepare_PyNone reload_wf)
next
  case (Obj q)
  with assms show ?thesis
    by (cases "same_request (loaded_pipeline_config s) mv er ab q8 co")
       (simp_all add: prepare_hit prepare_miss reload_wf)
qed

lemma prepare_tagged:
  assumes "tagged s"
  shows "tagged (snd (prepare_pipeline env s mv er ab q8 co))"
proof (cases "prepare_pipeline env s mv er ab q8 co")
  case (Pair r s1)
  show ?thesis
  proof (cases r)
    case (Inr p)
    from prepare_post [OF assms, of env mv er ab q8 co p s1] Pair Inr show ?thesis
      by (simp add: tagged_def same_request_def)
  next
    case (Inl e)
    have "pipeline (loaded_pipeline_config s1) = Missing \<or> pipeline (loaded_pipeline_config s1) = PyNone"
    proof (cases "pipeline (loaded_pipeline_config s)")
      case Missing
      with Pair show ?thesis by (simp add: prepare_Missing)
    next
      case PyNone
      with Pair Inl have r: "reload env s None mv er ab q8 co = (Inl e, s1)"
        by (simp add: prepare_PyNone)
      show ?thesis
      proof (cases "ctor env")
        case None
        from reload_build(1) [of None mv env s er ab q8 co] None r show ?thesis by simp
      next
        case (Some e')
        from reload_fail(3) [of None mv env e' s er ab q8 co] Some r PyNone show ?thesis by simp
      qed
    next
      case (Obj q)
      show ?thesis
      proof (cases "same_request (loaded_pipeline_config s) mv er ab q8 co")
        case True
        with Obj Pair Inl show ?thesis by (simp add: prepare_hit)
      next
        case False
        with Obj Pair Inl have r: "reload env s (Some q) mv er ab q8 co = (Inl e, s1)"
          by (simp add: prepare_miss)
        show ?thesis
        proof (cases "obj_model_version q = mv")
          case True
          with r show ?thesis by (simp add: reload_keep)
        next
          case neq: False
          show ?thesis
          proof (cases "ctor env")
            case None
            from reload_build(1) [of "Some q" mv env s er ab q8 co] None r neq show ?thesis by simp
          next
            case (Some e')
            from reload_fail(3) [of "Some q" mv env e' s er ab q8 co] Some r neq show ?thesis by simp
          qed
        qed
      qed
    qed
    with Pair show ?thesis by (auto simp: tagged_def)
  qed
qed

subsection \<open>Digits and file names\<close>

lemma lit_simps [simp]: "lit [] = []" "lit (c # cs) = of_char c # lit cs"
  by (simp_all add: lit_def)

lemma str_nat_digits: "list_all is_digit (str_nat n)"
proof (induction n rule: str_nat.induct)
  case (1 n)
  show ?case
  proof (cases "n < 10")
    case True
    then show ?thesis by (subst str_nat.simps) (simp add: is_digit_def)
  next
    case False
    have "n mod 10 < 10" by simp
    then have "is_digit (48 + n mod 10)" unfolding is_digit_def by linarith
    with False 1 show ?thesis by (subst str_nat.simps) simp
  qed
qed

lemma digits_value_snoc: "digits_value (ds @ [d]) = 10 * digits_value ds + (d - 48)"
  by (simp add: digits_value_def)

lemma digits_value_str_nat: "digits_value (str_nat n) = n"
proof (induction n rule: str_nat.induct)
  case (1 n)
  show ?case
  proof (cases "n < 10")
    case True
    then show ?thesis by (subst str_nat.simps) (simp add: digits_value_def)
  next
    case False
    with 1 show ?thesis by (subst str_nat.simps) (simp add: digits_value_snoc)
  qed
qed

lemma digits_value_zeros: "digits_value (replicate k 48 @ ds) = digits_value ds"
proof -
  have "foldl (\<lambda>a d. 10 * a + (d - 48)) 0 (replicate k 48) = (0::nat)"
    by (induction k) simp_all
  then show ?thesis by (simp add: digits_value_def)
qed

lemma length_str_nat_le: "n < 10 ^ k \<Longrightarrow> 0 < k \<Longrightarrow> length (str_nat n) \<le> k"
proof (induction k arbitrary: n)
  case 0
  then show ?case by simp
next
  case (Suc k)
  show ?case
  proof (cases "n < 10")
    case True
    then show ?thesis by (subst str_nat.simps) simp
  next
    case False
    with Suc.prems have k: "0 < k" by (cases k) auto
    from Suc.prems have "n div 10 < 10 ^ k" by (simp add: less_mult_imp_div_less mult.commute)
    from Suc.IH [OF this k] False show ?thesis by (subst str_nat.simps) simp
  qed
qed

lemma format_05d_digits: "list_all is_digit (format_05d n)"
proof -
  have "list_all is_digit (replicate k 48)" for k
    by (simp add: list_all_iff is_digit_def)
  with str_nat_digits [of n] show ?thesis by (simp add: format_05d_def)
qed

lemma format_05d_value: "digits_value (format_05d n) = n"
  by (simp add: format_05d_def digits_value_zeros digits_value_str_nat)

lemma format_05d_length: "5 \<le> length (format_05d n)"
  by (simp add: format_05d_def)

lemma format_05d_length5: "n < 100000 \<Longrightarrow> length (format_05d n) = 5"
  using length_str_nat_le [of n 5] by (simp add: format_05d_def)

lemma length_str_nat_gt: "10 ^ k \<le> n \<Longrightarrow> k < length (str_nat n)"
proof (induction k arbitrary: n)
  case 0
  show ?case by (subst str_nat.simps) simp
next
  case (Suc k)
  from Suc.prems have m: "10 * 10 ^ k \<le> n" by simp
  have "(1::nat) \<le> 10 ^ k" by simp
  with m have ge: "\<not> n < 10" by linarith
  from m have "10 ^ k \<le> n div 10" by auto
  from Suc.IH [OF this] ge show ?case by (subst str_nat.simps) simp
qed

lemma format_05d_wide: "100000 \<le> n \<Longrightarrow> format_05d n = str_nat n"
  using length_str_nat_gt [of 5 n] by (simp add: format_05d_def)

lemma out_name_split:
  "out_name U i p sd = format_05d i @ 95 # (prompt_name U p @ lit ''_seed'' @ str_int sd @ lit ''.png'')"
  by (simp add: out_name_def)

lemma sequence_number_out_name: "sequence_number (out_name U i p sd) = i"
proof -
  have "takeWhile is_digit (out_name U i p sd) = format_05d i"
    unfolding out_name_split using format_05d_digits [of i]
    by (simp add: takeWhile_append2 list_all_iff is_digit_def)
  then show ?thesis by (simp add: sequence_number_def format_05d_value)
qed

lemma prompt_name_sanitized: "prompt_name U p = sanitized_prefix U p"
proof -
  have "map (\<lambda>c. if isalnum U c \<or> c = 95 \<or> c = 45 then c else 95) (replace_space xs)
        = map (\<lambda>c. if allowed_char U c then c else 95) xs" for xs
    by (induction xs) (simp_all add: replace_space_def isalnum_def allowed_char_def)
  then show ?thesis by (simp add: prompt_name_def sanitized_prefix_def)
qed

lemma expected_files_snoc:
  "expected_files U k (reqs @ [(img, p, sd)])
     = expected_files U k reqs @ [(out_name U (k + length reqs) p sd, img)]"
  by (simp add: expected_files_def enumerate_append_eq)

lemma expected_files_seq:
  "map (\<lambda>f. sequence_number (fst f)) (expected_files U k reqs) = [k..<k + length reqs]"
proof -
  have "map (\<lambda>f. sequence_number (fst f)) (expected_files U k reqs) = map fst (enumerate k reqs)"
    by (simp add: expected_files_def sequence_number_out_name case_prod_unfold comp_def)
  then show ?thesis by simp
qed

lemma expected_files_fresh:
  "out_name U (k + length reqs) p sd \<notin> fst ` set (expected_files U k reqs)"
proof
  assume "out_name U (k + length reqs) p sd \<in> fst ` set (expected_files U k reqs)"
  then have "sequence_number (out_name U (k + length reqs) p sd)
      \<in> set (map (\<lambda>f. sequence_number (fst f)) (expected_files U k reqs))"
    by force
  then show False by (simp add: sequence_number_out_name expected_files_seq)
qed

lemma makedirs_Some [simp]: "makedirs (Some files) = files"
  by (simp add: makedirs_def)

lemma save_all_snoc:
  "save_all U d (reqs @ [(img, p, sd)]) = snd (save_image U (save_all U d reqs) img p sd)"
  by (induction U d reqs rule: save_all.induct) simp_all

lemma makedirs_save_all:
  assumes "makedirs d = []"
  shows "makedirs (save_all U d reqs) = expected_files U 0 reqs"
proof (induction reqs rule: rev_induct)
  case Nil
  with assms show ?case by (simp add: expected_files_def)
next
  case (snoc r reqs)
  obtain img p sd where r: "r = (img, p, sd)" by (cases r)
  have len: "length (expected_files U 0 reqs) = length reqs"
    by (simp add: expected_files_def)
  from expected_files_fresh [of U 0 reqs p sd] snoc len show ?case
    by (simp add: r save_all_snoc save_image_def Let_def write_file_def expected_files_snoc)
qed

subsection \<open>The sanitized prefix\<close>

lemma strip_underscore_subset: "set (strip_underscore s) \<subseteq> set s"
proof -
  have "set (dropWhile (\<lambda>c. c = 95) (rev (dropWhile (\<lambda>c. c = 95) s)))
          \<subseteq> set (rev (dropWhile (\<lambda>c. c = 95) s))"
    by (metis set_dropWhileD subsetI)
  also have "\<dots> \<subseteq> set s"
    using set_dropWhileD [of _ "\<lambda>c. c = 95" s] by auto
  finally show ?thesis by (simp add: strip_underscore_def)
qed

lemma strip_underscore_length: "length (strip_underscore s) \<le> length s"
proof -
  have "length (dropWhile (\<lambda>c. c = 95) (rev (dropWhile (\<lambda>c. c = 95) s)))
          \<le> length (rev (dropWhile (\<lambda>c. c = 95) s))"
    by (rule length_dropWhile_le)
  also have "\<dots> \<le> length s"
    using length_dropWhile_le [of "\<lambda>c. c = 95" s] by simp
  finally show ?thesis by (simp add: strip_underscore_def)
qed

lemma last_dropWhile_eq: "dropWhile P xs \<noteq> [] \<Longrightarrow> last (dropWhile P xs) = last xs"
  by (metis last_appendR takeWhile_dropWhile_id)

lemma strip_underscore_ends:
  assumes "strip_underscore s \<noteq> []"
  shows "hd (strip_underscore s) \<noteq> 95 \<and> last (strip_underscore s) \<noteq> 95"
proof -
  define ys where "ys = dropWhile (\<lambda>c. c = (95::nat)) s"
  define zs where "zs = dropWhile (\<lambda>c. c = (95::nat)) (rev ys)"
  have st: "strip_underscore s = rev zs"
    by (simp add: strip_underscore_def ys_def zs_def)
  with assms have zs: "zs \<noteq> []" by simp
  then have ys: "ys \<noteq> []" by (auto simp: zs_def)
  have "hd zs \<noteq> 95"
    using zs hd_dropWhile [of "\<lambda>c. c = (95::nat)" "rev ys"] by (simp add: zs_def)
  then have l: "last (strip_underscore s) \<noteq> 95"
    using zs by (simp add: st last_rev)
  have "last zs = last (rev ys)"
    using zs unfolding zs_def by (rule last_dropWhile_eq)
  also have "\<dots> = hd ys" using ys by (simp add: last_rev)
  finally have "last zs = hd ys" .
  moreover have "hd ys \<noteq> 95"
    using ys hd_dropWhile [of "\<lambda>c. c = (95::nat)" s] by (simp add: ys_def)
  ultimately have "hd (strip_underscore s) \<noteq> 95"
    using zs by (simp add: st hd_rev)
  with l show ?thesis by simp
qed

lemma sanitized_prefix_chars: "list_all (allowed_char U) (sanitized_prefix U p)"
proof -
  have "set (map (\<lambda>c. if allowed_char U c then c else 95) (take 50 p)) \<subseteq> {c. allowed_char U c}"
    by (auto simp: allowed_char_def)
  with strip_underscore_subset [of "map (\<lambda>c. if allowed_char U c then c else 95) (take 50 p)"]
  show ?thesis by (auto simp: sanitized_prefix_def list_all_iff)
qed

lemma sanitized_prefix_length: "length (sanitized_prefix U p) \<le> 50"
  using strip_underscore_length [of "map (\<lambda>c. if allowed_char U c then c else 95) (take 50 p)"]
  by (simp add: sanitized_prefix_def)

lemma sanitized_prefix_ends:
  "sanitized_prefix U p \<noteq> [] \<Longrightarrow>
   hd (sanitized_prefix U p) \<noteq> 95 \<and> last (sanitized_prefix U p) \<noteq> 95"
  unfolding sanitized_prefix_def by (rule strip_underscore_ends)

subsection \<open>The seed\<close>

lemma pick_seed_given: "sd \<noteq> 0 \<Longrightarrow> pick_seed env sd = sd"
  by (simp add: pick_seed_def)

lemma pick_seed_drawn: "pick_seed env 0 = uint (torch_seed env AND 0xFFFFFFFF)"
  by (simp add: pick_seed_def)

lemma pick_seed_range: "0 \<le> pick_seed env 0 \<and> pick_seed env 0 < 2 ^ 32"
proof -
  have "torch_seed env AND 0xFFFFFFFF \<le> 0xFFFFFFFF"
    by (rule word_and_le1)
  then have "uint (torch_seed env AND 0xFFFFFFFF) \<le> uint (0xFFFFFFFF :: 64 word)"
    by (simp add: word_le_def)
  then show ?thesis by (simp add: pick_seed_def)
qed

lemma pick_seed_zero_iff: "pick_seed env 0 = 0 \<longleftrightarrow> torch_seed env AND 0xFFFFFFFF = 0"
  by (simp add: pick_seed_def uint_0_iff)

subsection \<open>The ways through \<^verbatim>\<open>generate_image\<close>\<close>

lemma download_models_sel [simp]:
  "loaded_pipeline_config (snd (download_models env s)) = loaded_pipeline_config s"
  "trace (snd (download_models env s)) = trace s"
  "next_obj (snd (download_models env s)) = next_obj s"
  "results_dir (snd (download_models env s)) = results_dir s"
  by (simp_all add: download_models_def split: option.split)

lemma download_models_done:
  "models_downloaded s \<Longrightarrow> download_models env s = (Inr (), s)"
  by (simp add: download_models_def)

lemma generate_image_inference_failure:
  assumes "download_models env s = (Inr (), s1)"
    and "prepare_pipeline env s1 mv er ab q8 co = (Inr p, s2)"
    and "run_pipeline env p
           \<lparr>arg_id_image = input_image, arg_prompt = prm,
            arg_control_image = control_image, arg_seed = pick_seed env sd,
            arg_width = w, arg_height = h, arg_guidance_scale = gs, arg_num_steps = n,
            arg_infusenet_conditioning_scale = cs, arg_infusenet_guidance_start = g0,
            arg_infusenet_guidance_end = g1, arg_cpu_offload = co\<rparr> = Inl e"
  shows "generate_image env s input_image control_image prm sd w h gs n cs g0 g1 er ab q8 co mv
           = (Inr (NoUpdate, str_int (pick_seed env sd)), print (str_exn e) s2)"
  using assms by (simp add: generate_image_def Let_def)

lemma generate_image_success:
  assumes "download_models env s = (Inr (), s1)"
    and "prepare_pipeline env s1 mv er ab q8 co = (Inr p, s2)"
    and "run_pipeline env p
           \<lparr>arg_id_image = input_image, arg_prompt = prm,
            arg_control_image = control_image, arg_seed = pick_seed env sd,
            arg_width = w, arg_height = h, arg_guidance_scale = gs, arg_num_steps = n,
            arg_infusenet_conditioning_scale = cs, arg_infusenet_guidance_start = g0,
            arg_infusenet_guidance_end = g1, arg_cpu_offload = co\<rparr> = Inr img"
    and "save_raises env = None"
  shows "generate_image env s input_image control_image prm sd w h gs n cs g0 g1 er ab q8 co mv
           = (Inr (Update img
                     (lit ''Generated Image, seed='' @ str_int (pick_seed env sd)
                        @ lit '', saved to ''
                        @ fst (save_image (unicode_alnum env) (results_dir s2) img prm
                                 (pick_seed env sd))),
                   str_int (pick_seed env sd)),
              s2\<lparr>results_dir :=
                    snd (save_image (unicode_alnum env) (results_dir s2) img prm
                           (pick_seed env sd))\<rparr>)"
  using assms by (simp add: generate_image_def Let_def split: prod.split)

text \<open>Whatever a request returns, the seed it reports is the one it picked.\<close>

lemma generate_image_reports_seed:
  assumes "generate_image env s input_image control_image prm sd w h gs n cs g0 g1 er ab q8 co mv
             = (Inr (u, t), s')"
  shows "t = str_int (pick_seed env sd)"
  using assms
  by (auto simp: generate_image_def Let_def split: prod.splits sum.splits option.splits)

text \<open>
  After its call to \<^verbatim>\<open>prepare_pipeline\<close> a request changes neither the dictionary
  nor the trace.
\<close>

lemma generate_image_cache:
  assumes "download_models env s = (Inr (), s1)"
  shows "loaded_pipeline_config
           (snd (generate_image env s input_image control_image prm sd w h gs n cs g0 g1
                   er ab q8 co mv))
           = loaded_pipeline_config (snd (prepare_pipeline env s1 mv er ab q8 co))
         \<and> trace (snd (generate_image env s input_image control_image prm sd w h gs n cs g0 g1
                   er ab q8 co mv))
           = trace (snd (prepare_pipeline env s1 mv er ab q8 co))
         \<and> next_obj (snd (generate_image env s input_image control_image prm sd w h gs n cs g0 g1
                   er ab q8 co mv))
           = next_obj (snd (prepare_pipeline env s1 mv er ab q8 co))"
  using assms
  by (simp add: generate_image_def Let_def split: prod.split sum.split option.split)

lemma wf_cong:
  "loaded_pipeline_config s' = loaded_pipeline_config s \<Longrightarrow> trace s' = trace s
     \<Longrightarrow> next_obj s' = next_obj s \<Longrightarrow> wf s' = wf s"
  by (simp add: wf_def tagged_def split: slot.split)

lemma generate_image_wf:
  assumes "wf s"
  shows "wf (snd (generate_image env s input_image control_image prm sd w h gs n cs g0 g1
                    er ab q8 co mv))"
proof (cases "download_models env s")
  case (Pair r s1)
  have s1: "s1 = snd (download_models env s)" by (simp add: Pair)
  have wf1: "wf s1" using assms wf_cong [of s1 s] by (simp add: s1)
  show ?thesis
  proof (cases r)
    case (Inl e)
    with Pair wf1 show ?thesis by (simp add: generate_image_def)
  next
    case (Inr u)
    with Pair have d: "download_models env s = (Inr (), s1)" by simp
    from generate_image_cache [OF d, of input_image control_image prm sd w h gs n cs g0 g1
                                 er ab q8 co mv]
      prepare_wf [OF wf1, of env mv er ab q8 co]
    show ?thesis using wf_cong by blast
  qed
qed

text \<open>
  A request that repeats the options of the request before it, whatever that one
  returned after its call to \<^verbatim>\<open>prepare_pipeline\<close>, finds the resident object and
  calls neither the constructor nor the adapter functions.
\<close>

lemma request_after_failure_hits:
  assumes "prepare_pipeline env s1 mv er ab q8 co = (Inr p, s2)"
  shows "prepare_pipeline env' (print line s2) mv er ab q8 co = (Inr p, print line s2)"
proof -
  from prepare_slot [OF assms]
  have "pipeline (loaded_pipeline_config (print line s2)) = Obj p"
    and "same_request (loaded_pipeline_config (print line s2)) mv er ab q8 co"
    by simp_all
  then show ?thesis by (rule prepare_hit)
qed

subsection \<open>A change of the quantization or offload flag alone\<close>

text \<open>
  Line 99 compares the model version only. With the version unchanged, a request that
  differs in \<^verbatim>\<open>quantize_8bit\<close> or \<^verbatim>\<open>cpu_offload\<close> fails the test on lines 82 to 89,
  records the new flags, and goes on with the object built for the old ones.
\<close>

lemma flag_change_keeps_object:
  assumes "tagged s"
    and "prepare_pipeline env1 s mv er ab q8 co = (Inr p, s1)"
    and "q8' \<noteq> q8 \<or> co' \<noteq> co"
  shows "prepare_pipeline env2 s1 mv er ab q8' co'
           = (Inr (with_loras er ab p), after_swap s1 p mv er ab q8' co')"
proof -
  from prepare_post [OF assms(1,2)]
  have slot: "pipeline (loaded_pipeline_config s1) = Obj p"
    and same: "same_request (loaded_pipeline_config s1) mv er ab q8 co"
    and ver: "obj_model_version p = mv" by simp_all
  from same assms(3) have "\<not> same_request (loaded_pipeline_config s1) mv er ab q8' co'"
    by (auto simp: same_request_def)
  with slot have "prepare_pipeline env2 s1 mv er ab q8' co' = reload env2 s1 (Some p) mv er ab q8' co'"
    by (simp add: prepare_miss)
  with ver show ?thesis by (simp add: reload_keep)
qed

subsection \<open>A constructor that raises\<close>

text \<open>
  With no object resident, a failed construction leaves \<^verbatim>\<open>None\<close> in the dictionary,
  and the next call builds again.
\<close>

lemma first_build_failure:
  assumes "pipeline (loaded_pipeline_config s) = PyNone" and "ctor env = Some e"
  shows "fst (prepare_pipeline env s mv er ab q8 co) = Inl e"
    and "pipeline (loaded_pipeline_config (snd (prepare_pipeline env s mv er ab q8 co))) = PyNone"
  using assms reload_fail(1,3) [of None mv env e s er ab q8 co]
  by (simp_all add: prepare_PyNone)

text \<open>
  With an object of another version resident, lines 102 and 103 have deleted the entry
  before the constructor runs. When it raises, the entry stays deleted, and every later
  call stops at line 83 with \<^verbatim>\<open>KeyError\<close>, whatever the constructor would do.
\<close>

lemma switch_failure_wedges:
  assumes "pipeline (loaded_pipeline_config s) = Obj q"
    and "tagged s" and "mv \<noteq> model_version (loaded_pipeline_config s)"
    and "ctor env = Some e"
  shows "fst (prepare_pipeline env s mv er ab q8 co) = Inl e"
    and "pipeline (loaded_pipeline_config (snd (prepare_pipeline env s mv er ab q8 co))) = Missing"
    and "prepare_pipeline env' (snd (prepare_pipeline env s mv er ab q8 co)) mv' er' ab' q8' co'
           = (Inl (KeyError ''pipeline''), snd (prepare_pipeline env s mv er ab q8 co))"
proof -
  from assms(1,2) have ver: "obj_model_version q = model_version (loaded_pipeline_config s)"
    by (simp add: tagged_def)
  from assms(3) have miss: "\<not> same_request (loaded_pipeline_config s) mv er ab q8 co"
    by (simp add: same_request_def)
  have eq: "prepare_pipeline env s mv er ab q8 co = reload env s (Some q) mv er ab q8 co"
    using assms(1) miss by (rule prepare_miss)
  have diff: "Some q = None \<or> obj_model_version (the (Some q)) \<noteq> mv"
    using ver assms(3) by simp
  note f = reload_fail [OF diff assms(4), of s er ab q8 co]
  show "fst (prepare_pipeline env s mv er ab q8 co) = Inl e"
    using f(1) by (simp add: eq)
  show m: "pipeline (loaded_pipeline_config (snd (prepare_pipeline env s mv er ab q8 co))) = Missing"
    using f(3) by (simp add: eq)
  show "prepare_pipeline env' (snd (prepare_pipeline env s mv er ab q8 co)) mv' er' ab' q8' co'
           = (Inl (KeyError ''pipeline''), snd (prepare_pipeline env s mv er ab q8 co))"
    using m by (rule prepare_Missing)
qed

subsection \<open>The concrete requests\<close>

lemma first_call:
  "prepare_pipeline demo_env init_state ''aes_stage2'' False False True True
     = (Inr first_obj, after_first)"
  by code_simp

lemma tagged_init: "tagged init_state"
  using wf_init by (simp add: wf_def)

subsection \<open>Writing files\<close>

lemma write_file_mem: "(name, img) \<in> set (write_file files name img)"
proof (cases "name \<in> fst ` set files")
  case True
  then obtain v where "(name, v) \<in> set files" by auto
  then have "(\<lambda>(k, v). if k = name then (k, img) else (k, v)) (name, v)
               \<in> (\<lambda>(k, v). if k = name then (k, img) else (k, v)) ` set files"
    by (rule imageI)
  with True show ?thesis by (simp add: write_file_def)
next
  case False
  then show ?thesis by (simp add: write_file_def)
qed

lemma takeWhile_out_name: "takeWhile is_digit (out_name U i p sd) = format_05d i"
  unfolding out_name_split using format_05d_digits [of i]
  by (simp add: takeWhile_append2 list_all_iff is_digit_def)

text \<open>
  No name contains a slash, so every file lands in the results directory itself, which
  is why the directory can be taken as a flat list of names.
\<close>

lemma str_int_chars: "list_all (\<lambda>c. is_digit c \<or> c = 45) (str_int sd)"
  using str_nat_digits [of "nat sd"] str_nat_digits [of "nat (- sd)"]
  by (simp add: str_int_def list_all_iff)

lemma out_name_no_slash: "47 \<notin> set (out_name U i p sd)"
proof -
  have a: "47 \<notin> set (format_05d i)"
    using format_05d_digits [of i] by (auto simp: list_all_iff is_digit_def)
  have b: "47 \<notin> set (prompt_name U p)"
    using sanitized_prefix_chars [of U p]
    by (auto simp: prompt_name_sanitized list_all_iff allowed_char_def isalnum_def)
  have c: "47 \<notin> set (str_int sd)"
    using str_int_chars [of sd] by (auto simp: list_all_iff is_digit_def)
  from a b c show ?thesis by (simp add: out_name_def)
qed

lemma expected_files_flat: "list_all (\<lambda>f. 47 \<notin> set (fst f)) (expected_files U k reqs)"
  by (simp add: expected_files_def list_all_iff out_name_no_slash case_prod_unfold)

lemma expected_files_numbers:
  "map (\<lambda>f. takeWhile is_digit (fst f)) (expected_files U k reqs)
     = map format_05d [k..<k + length reqs]"
proof -
  have "map (\<lambda>f. takeWhile is_digit (fst f)) (expected_files U k reqs)
          = map (format_05d \<circ> fst) (enumerate k reqs)"
    by (simp add: expected_files_def takeWhile_out_name case_prod_unfold comp_def)
  also have "\<dots> = map format_05d (map fst (enumerate k reqs))"
    by (simp only: map_map)
  also have "\<dots> = map format_05d [k..<k + length reqs]"
    by (simp only: map_fst_enumerate)
  finally show ?thesis .
qed

lemma expected_files_contents: "map snd (expected_files U k reqs) = map fst reqs"
proof -
  have "map snd (expected_files U k reqs) = map (fst \<circ> snd) (enumerate k reqs)"
    by (simp add: expected_files_def case_prod_unfold comp_def)
  also have "\<dots> = map fst (map snd (enumerate k reqs))"
    by (simp only: map_map)
  also have "\<dots> = map fst reqs"
    by (simp only: map_snd_enumerate)
  finally show ?thesis .
qed

lemma expected_files_distinct: "distinct (map fst (expected_files U k reqs))"
proof -
  have "distinct (map sequence_number (map fst (expected_files U k reqs)))"
    using expected_files_seq [of U k reqs] by (simp add: comp_def)
  then show ?thesis unfolding distinct_map [of sequence_number] by (rule conjunct1)
qed

lemma save_all_created: "reqs \<noteq> [] \<Longrightarrow> save_all U d reqs \<noteq> None"
proof (cases reqs rule: rev_cases)
  case Nil
  assume "reqs \<noteq> []"
  with Nil show ?thesis by simp
next
  case (snoc rs r)
  obtain img p sd where "r = (img, p, sd)" by (cases r)
  with snoc show ?thesis by (simp add: save_all_snoc save_image_def Let_def)
qed

section \<open>The claims\<close>

text \<open>
  Claim C1. When a pipeline is resident with the same variant but a different
  \<^verbatim>\<open>quantize_8bit\<close> or \<^verbatim>\<open>cpu_offload\<close> flag, \<^verbatim>\<open>prepare_pipeline\<close> is claimed to
  destroy it and build a new one. The code does not: after the first request of a process
  (quantization on), the same request with quantization off returns the same object,
  still the one built with quantization on, records the flag as off, and makes the two
  adapter calls only: no release, and no call of the constructor (which would raise in
  the world of the second call).
\<close>

theorem quantize_change_reuses_object:
  "prepare_pipeline demo_env init_state ''aes_stage2'' False False True True
     = (Inr first_obj, after_first)
   \<and> fst (prepare_pipeline no_weights_env after_first ''aes_stage2'' False False False True)
       = Inr first_obj
   \<and> obj_quantize_8bit first_obj
   \<and> \<not> quantize_8bit (loaded_pipeline_config
         (snd (prepare_pipeline no_weights_env after_first ''aes_stage2'' False False False True)))
   \<and> trace (snd (prepare_pipeline no_weights_env after_first ''aes_stage2'' False False False True))
       = trace after_first @ [DeleteAdapters 0 [''realism'', ''anti_blur''], LoadLoras 0 []]"
  by code_simp

text \<open>
  Claim C2. After a failed construction the cache is claimed to hold no pipeline and the
  next call with the same options to build from scratch. The code does so only when no
  object was resident before. When the failed construction was a switch of the model
  version, the dictionary entry is gone, and the next call with the same options, in a
  world where the constructor would succeed, raises \<^verbatim>\<open>KeyError\<close> and leaves
  the state as it is.
\<close>

theorem failed_switch_then_key_error:
  "fst (prepare_pipeline no_weights_env after_first ''sim_stage1'' False False True True)
     = Inl (Exception ''weights missing'')
   \<and> pipeline (loaded_pipeline_config after_failed_switch) = Missing
   \<and> prepare_pipeline demo_env after_failed_switch ''sim_stage1'' False False True True
       = (Inl (KeyError ''pipeline''), after_failed_switch)
   \<and> pipeline (loaded_pipeline_config after_failed_start) = PyNone
   \<and> fst (prepare_pipeline demo_env after_failed_start ''sim_stage1'' False False True True)
       = Inr \<lparr>obj_id = 0, obj_model_version = ''sim_stage1'', obj_quantize_8bit = True,
              obj_cpu_offload = True, adapters = []\<rparr>"
  by code_simp

text \<open>
  Claim C3. Calling \<^verbatim>\<open>prepare_pipeline\<close> twice in a row with the same options, the
  second call returns the object the first returned and changes nothing: it calls neither
  the constructor nor the adapter functions, whatever the world would answer. When no
  pipeline is resident before the first call, the two calls together complete exactly
  one construction.
\<close>

theorem prepare_twice:
  assumes "prepare_pipeline env1 s mv er ab q8 co = (Inr p, s1)"
  shows "prepare_pipeline env2 s1 mv er ab q8 co = (Inr p, s1)
         \<and> (pipeline (loaded_pipeline_config s) = PyNone
              \<longrightarrow> constructs (trace s1) = constructs (trace s) + 1)"
proof -
  from prepare_slot [OF assms]
  have "prepare_pipeline env2 s1 mv er ab q8 co = (Inr p, s1)"
    by (simp add: prepare_hit)
  moreover have "pipeline (loaded_pipeline_config s) = PyNone
              \<longrightarrow> constructs (trace s1) = constructs (trace s) + 1"
    using prepare_from_empty_constructs [OF assms] by blast
  ultimately show ?thesis by blast
qed

theorem prepare_twice_witness:
  "prepare_pipeline demo_env init_state ''aes_stage2'' False False True True
     = (Inr first_obj, after_first)
   \<and> pipeline (loaded_pipeline_config init_state) = PyNone
   \<and> prepare_pipeline no_weights_env after_first ''aes_stage2'' False False True True
       = (Inr first_obj, after_first)
   \<and> constructs (trace after_first) = constructs (trace init_state) + 1"
proof -
  have e: "pipeline (loaded_pipeline_config init_state) = PyNone"
    by (simp add: init_state_def init_config_def)
  from prepare_twice [OF first_call, of no_weights_env] e first_call
  show ?thesis by simp
qed

text \<open>
  Claim C4. Let a call for options A succeed in a state that satisfies the invariant,
  and let B differ from A in the model version only. Then the object of A is alive after
  the first call, and the call for B first releases it (lines 102 to 105) and only then
  calls the constructor, whether that returns or raises; at no point of the whole trace
  are two objects alive. When the constructor returns, the object of B is a new one, and
  the only one alive afterwards. The dictionary goes along with the trace: it holds the
  object of A before the call; a constructor that raises leaves the state in which it
  was called, and there the entry is deleted, so the object of A was gone from the
  dictionary before the construction began; a constructor that returns leaves the
  object of B in it. The invariant holds again after the call.
\<close>

theorem variant_change_releases_first:
  assumes "wf s"
    and "prepare_pipeline env1 s mvA er ab q8 co = (Inr p1, s1)"
    and "mvB \<noteq> mvA"
  shows "resident (trace s1) = [obj_id p1]
         \<and> trace (snd (prepare_pipeline env2 s1 mvB er ab q8 co))
             = trace s1 @ Release (obj_id p1)
                 # (case ctor env2 of
                      None \<Rightarrow> [Construct (next_obj s1) mvB q8 co,
                                DeleteAdapters (next_obj s1) [''realism'', ''anti_blur''],
                                LoadLoras (next_obj s1) (loras_for er ab)]
                    | Some e \<Rightarrow> [ConstructRaised mvB q8 co])
         \<and> never_two (trace (snd (prepare_pipeline env2 s1 mvB er ab q8 co)))
         \<and> (ctor env2 = None \<longrightarrow>
              fst (prepare_pipeline env2 s1 mvB er ab q8 co)
                = Inr (with_loras er ab (new_obj (next_obj s1) mvB q8 co))
              \<and> next_obj s1 \<noteq> obj_id p1
              \<and> resident (trace (snd (prepare_pipeline env2 s1 mvB er ab q8 co))) = [next_obj s1])
         \<and> pipeline (loaded_pipeline_config s1) = Obj p1
         \<and> pipeline (loaded_pipeline_config (snd (prepare_pipeline env2 s1 mvB er ab q8 co)))
             = (case ctor env2 of
                  None \<Rightarrow> Obj (with_loras er ab (new_obj (next_obj s1) mvB q8 co))
                | Some e \<Rightarrow> Missing)
         \<and> wf (snd (prepare_pipeline env2 s1 mvB er ab q8 co))"
proof -
  have tg: "tagged s" using assms(1) by (simp add: wf_def)
  from prepare_post [OF tg assms(2)]
  have slot: "pipeline (loaded_pipeline_config s1) = Obj p1"
    and same: "same_request (loaded_pipeline_config s1) mvA er ab q8 co"
    and ver: "obj_model_version p1 = mvA" by simp_all
  from prepare_wf [OF assms(1), of env1 mvA er ab q8 co] assms(2) have wf1: "wf s1" by simp
  from wf1 slot have res: "resident (trace s1) = [obj_id p1]" and fresh: "obj_id p1 < next_obj s1"
    by (simp_all add: wf_def slot_ids_def)
  from same assms(3) have "\<not> same_request (loaded_pipeline_config s1) mvB er ab q8 co"
    by (auto simp: same_request_def)
  with slot have eq: "prepare_pipeline env2 s1 mvB er ab q8 co = reload env2 s1 (Some p1) mvB er ab q8 co"
    by (simp add: prepare_miss)
  have diff: "Some p1 = None \<or> obj_model_version (the (Some p1)) \<noteq> mvB"
    using ver assms(3) by simp
  have wf2: "wf (snd (prepare_pipeline env2 s1 mvB er ab q8 co))"
    by (rule prepare_wf [OF wf1])
  then have nt: "never_two (trace (snd (prepare_pipeline env2 s1 mvB er ab q8 co)))"
    by (simp add: wf_def)
  show ?thesis
  proof (cases "ctor env2")
    case None
    note b = reload_build [OF diff None, of s1 er ab q8 co]
    from b(1,2,3) res fresh nt None slot wf2 show ?thesis
      by (simp add: eq release_of_def resident_append)
  next
    case (Some e)
    note f = reload_fail [OF diff Some, of s1 er ab q8 co]
    from f(2,3) res nt Some slot wf2 show ?thesis
      by (simp add: eq release_of_def)
  qed
qed

theorem variant_change_releases_first_witness:
  "wf init_state
   \<and> prepare_pipeline demo_env init_state ''aes_stage2'' False False True True
       = (Inr first_obj, after_first)
   \<and> ''sim_stage1'' \<noteq> ''aes_stage2''
   \<and> resident (trace after_first) = [0]
   \<and> trace (snd (prepare_pipeline demo_env after_first ''sim_stage1'' False False True True))
       = trace after_first
           @ [Release 0, Construct 1 ''sim_stage1'' True True,
              DeleteAdapters 1 [''realism'', ''anti_blur''], LoadLoras 1 []]
   \<and> never_two (trace (snd (prepare_pipeline demo_env after_first ''sim_stage1'' False False True True)))
   \<and> resident (trace (snd (prepare_pipeline demo_env after_first ''sim_stage1'' False False True True)))
       = [1]
   \<and> pipeline (loaded_pipeline_config after_first) = Obj first_obj
   \<and> pipeline (loaded_pipeline_config
         (snd (prepare_pipeline no_weights_env after_first ''sim_stage1'' False False True True)))
       = Missing
   \<and> wf (snd (prepare_pipeline no_weights_env after_first ''sim_stage1'' False False True True))"
proof -
  have neq: "''sim_stage1'' \<noteq> ''aes_stage2''" by simp
  have c: "ctor demo_env = None" by (simp add: demo_env_def)
  have c': "ctor no_weights_env = Some (Exception ''weights missing'')"
    by (simp add: no_weights_env_def)
  have i: "obj_id first_obj = 0" by (simp add: first_obj_def)
  have n: "next_obj after_first = 1" by code_simp
  have l: "loras_for False False = []" by (simp add: loras_for_def)
  from variant_change_releases_first [OF wf_init first_call neq, of demo_env]
  have ok: "resident (trace after_first) = [0]
   \<and> trace (snd (prepare_pipeline demo_env after_first ''sim_stage1'' False False True True))
       = trace after_first
           @ [Release 0, Construct 1 ''sim_stage1'' True True,
              DeleteAdapters 1 [''realism'', ''anti_blur''], LoadLoras 1 []]
   \<and> never_two (trace (snd (prepare_pipeline demo_env after_first ''sim_stage1'' False False True True)))
   \<and> resident (trace (snd (prepare_pipeline demo_env after_first ''sim_stage1'' False False True True)))
       = [1]
   \<and> pipeline (loaded_pipeline_config after_first) = Obj first_obj"
    unfolding c i n l option.case by blast
  from variant_change_releases_first [OF wf_init first_call neq, of no_weights_env]
  have bad: "pipeline (loaded_pipeline_config
         (snd (prepare_pipeline no_weights_env after_first ''sim_stage1'' False False True True)))
       = Missing
   \<and> wf (snd (prepare_pipeline no_weights_env after_first ''sim_stage1'' False False True True))"
    unfolding c' option.case by blast
  from ok bad wf_init first_call neq show ?thesis by blast
qed

text \<open>
  Claim C5. Let a call succeed in a state where the resident object carries the recorded
  model version, and let the next request differ from it in the enabled LoRAs only.
  Then the next call returns the same object (same identity, same version and flags)
  with its adapters swapped, and its only calls are \<^verbatim>\<open>delete_adapters\<close> and
  \<^verbatim>\<open>load_loras\<close> on that object: no release, no construction.
\<close>

theorem addon_swap_keeps_object:
  assumes "tagged s"
    and "prepare_pipeline env1 s mv er ab q8 co = (Inr p, s1)"
    and "er' \<noteq> er \<or> ab' \<noteq> ab"
  shows "prepare_pipeline env2 s1 mv er' ab' q8 co
           = (Inr (with_loras er' ab' p), after_swap s1 p mv er' ab' q8 co)
         \<and> obj_id (with_loras er' ab' p) = obj_id p
         \<and> trace (after_swap s1 p mv er' ab' q8 co)
             = trace s1 @ [DeleteAdapters (obj_id p) [''realism'', ''anti_blur''],
                           LoadLoras (obj_id p) (loras_for er' ab')]
         \<and> constructs (trace (after_swap s1 p mv er' ab' q8 co)) = constructs (trace s1)
         \<and> pipeline (loaded_pipeline_config (after_swap s1 p mv er' ab' q8 co))
             = Obj (with_loras er' ab' p)"
proof -
  from prepare_post [OF assms(1,2)]
  have slot: "pipeline (loaded_pipeline_config s1) = Obj p"
    and same: "same_request (loaded_pipeline_config s1) mv er ab q8 co"
    and ver: "obj_model_version p = mv" by simp_all
  from same assms(3) have "\<not> same_request (loaded_pipeline_config s1) mv er' ab' q8 co"
    by (auto simp: same_request_def)
  with slot have "prepare_pipeline env2 s1 mv er' ab' q8 co = reload env2 s1 (Some p) mv er' ab' q8 co"
    by (simp add: prepare_miss)
  with ver have "prepare_pipeline env2 s1 mv er' ab' q8 co
           = (Inr (with_loras er' ab' p), after_swap s1 p mv er' ab' q8 co)"
    by (simp add: reload_keep)
  then show ?thesis by (simp add: constructs_def)
qed

theorem addon_swap_keeps_object_witness:
  "tagged init_state
   \<and> prepare_pipeline demo_env init_state ''aes_stage2'' False False True True
       = (Inr first_obj, after_first)
   \<and> fst (prepare_pipeline no_weights_env after_first ''aes_stage2'' True False True True)
       = Inr (first_obj\<lparr>adapters := [''realism'']\<rparr>)
   \<and> trace (snd (prepare_pipeline no_weights_env after_first ''aes_stage2'' True False True True))
       = trace after_first
           @ [DeleteAdapters 0 [''realism'', ''anti_blur''],
              LoadLoras 0 [(''./models/InfiniteYou/supports/optional_loras/flux_realism_lora.safetensors'',
                            ''realism'', 1)]]"
proof -
  have d: "True \<noteq> False \<or> False \<noteq> False" by simp
  have w: "with_loras True False first_obj = first_obj\<lparr>adapters := [''realism'']\<rparr>"
    by (simp add: with_loras_def load_loras_def delete_adapters_def loras_for_def first_obj_def)
  have i: "obj_id first_obj = 0" by (simp add: first_obj_def)
  have l: "loras_for True False
             = [(''./models/InfiniteYou/supports/optional_loras/flux_realism_lora.safetensors'',
                 ''realism'', 1)]"
    by (simp add: loras_for_def)
  from addon_swap_keeps_object [OF tagged_init first_call d, of no_weights_env] tagged_init first_call
  show ?thesis by (simp add: w i l)
qed

text \<open>
  Claim C6. A request with seed 0 is claimed to report a nonzero seed. The code reports
  the low 32 bits of what \<^verbatim>\<open>torch.seed()\<close> returns, and these can be zero: when
  \<^verbatim>\<open>torch.seed()\<close> returns \<open>2 ^ 32\<close>, the request runs with seed 0, saves a file named
  after seed 0 and reports the seed \<^verbatim>\<open>"0"\<close>, which the form reads as "random".
\<close>

theorem drawn_seed_can_be_zero:
  "torch_seed demo_env = 2 ^ 32
   \<and> pick_seed demo_env 0 = 0
   \<and> fst (generate_image demo_env init_state (Some 1) None (lit ''portrait'') 0 864 1152 3.5 30
            1 0 1 False False True True ''aes_stage2'')
       = Inr (Update 5
                (lit ''Generated Image, seed=0, saved to ./results/00000_portrait_seed0.png''),
              lit ''0'')"
  by code_simp

text \<open>
  Claim C7. When the pipeline call raises, the caller is claimed to receive a reportable
  error that carries the seed. The code prints the message, builds a \<^verbatim>\<open>gr.Error\<close>
  without raising it, and returns normally: the caller gets the empty update and the
  seed, and nothing that tells of the failure. The state is the one
  \<^verbatim>\<open>prepare_pipeline\<close> left, with the printed line added.
\<close>

theorem inference_failure_returns_normally:
  "generate_image no_face_env init_state (Some 1) None (lit ''portrait'') 7 864 1152 3.5 30
      1 0 1 False False True True ''aes_stage2''
     = (Inr (NoUpdate, lit ''7''),
        print ''No face detected'' (after_first\<lparr>models_downloaded := True\<rparr>))"
  by code_simp

text \<open>
  Claim C8. The file written by lines 182 to 187 is named, inside \<^verbatim>\<open>./results\<close>,
  by the index, \<^verbatim>\<open>_\<close>, the sanitized prompt prefix, \<^verbatim>\<open>_seed\<close>, the seed in
  decimal and \<^verbatim>\<open>.png\<close>. As claimed, with a sequence part of five digits for
  every save, this fails: \<^verbatim>\<open>{index:05d}\<close> pads to a width of at least five, and
  in a directory that holds 100000 entries the sequence part is \<^verbatim>\<open>100000\<close>, six
  digits.
\<close>

theorem sequence_part_six_digits:
  "length (makedirs full_dir) = 100000
   \<and> fst (save_image ascii_only full_dir 4 (lit ''p'') 7) = lit ''./results/100000_p_seed7.png''
   \<and> format_05d (length (makedirs full_dir)) = lit ''100000''
   \<and> length (format_05d (length (makedirs full_dir))) \<noteq> 5"
proof -
  have n: "length (makedirs full_dir) = 100000"
    by (simp add: full_dir_def)
  have f: "format_05d 100000 = lit ''100000''" by code_simp
  have o: "OUTPUT_DIR @ lit ''/'' @ out_name ascii_only 100000 (lit ''p'') 7
             = lit ''./results/100000_p_seed7.png''"
    by code_simp
  have "fst (save_image ascii_only full_dir 4 (lit ''p'') 7)
          = OUTPUT_DIR @ lit ''/'' @ out_name ascii_only 100000 (lit ''p'') 7"
    by (simp only: save_image_def Let_def n fst_conv)
  from this o have p: "fst (save_image ascii_only full_dir 4 (lit ''p'') 7)
                    = lit ''./results/100000_p_seed7.png''"
    by (rule trans)
  have l: "length (format_05d (length (makedirs full_dir))) \<noteq> 5"
    unfolding n f by simp
  have f': "format_05d (length (makedirs full_dir)) = lit ''100000''"
    unfolding n by (rule f)
  show ?thesis by (intro conjI) (fact n, fact p, fact f', fact l)
qed

text \<open>
  Claim C8, amended. The name is the index zero-padded to at least five digits,
  \<^verbatim>\<open>_\<close>, the sanitized prompt prefix, \<^verbatim>\<open>_seed\<close>, the seed in decimal and
  \<^verbatim>\<open>.png\<close>; the file is written under it. The index part consists of digits and
  denotes the number of entries of the directory; it has exactly five digits as long as
  that number is below 100000, and is the plain decimal number, of six digits or more,
  from 100000 on. The sanitized prefix is the one the specification words: it has at
  most 50 characters, each alphanumeric, \<^verbatim>\<open>_\<close> or \<^verbatim>\<open>-\<close>, and neither starts nor
  ends with \<^verbatim>\<open>_\<close>.
\<close>

theorem saved_file_name:
  "fst (save_image U d img p sd)
     = OUTPUT_DIR @ lit ''/'' @ format_05d (length (makedirs d)) @ lit ''_''
         @ sanitized_prefix U p @ lit ''_seed'' @ str_int sd @ lit ''.png''
   \<and> (format_05d (length (makedirs d)) @ lit ''_'' @ sanitized_prefix U p @ lit ''_seed''
         @ str_int sd @ lit ''.png'', img) \<in> set (makedirs (snd (save_image U d img p sd)))
   \<and> list_all is_digit (format_05d (length (makedirs d)))
   \<and> digits_value (format_05d (length (makedirs d))) = length (makedirs d)
   \<and> 5 \<le> length (format_05d (length (makedirs d)))
   \<and> (length (makedirs d) < 100000 \<longrightarrow> length (format_05d (length (makedirs d))) = 5)
   \<and> (100000 \<le> length (makedirs d) \<longrightarrow>
        format_05d (length (makedirs d)) = str_nat (length (makedirs d))
        \<and> 5 < length (format_05d (length (makedirs d))))
   \<and> list_all (allowed_char U) (sanitized_prefix U p)
   \<and> length (sanitized_prefix U p) \<le> 50
   \<and> (sanitized_prefix U p \<noteq> [] \<longrightarrow>
        hd (sanitized_prefix U p) \<noteq> 95 \<and> last (sanitized_prefix U p) \<noteq> 95)"
proof -
  have c1: "fst (save_image U d img p sd)
     = OUTPUT_DIR @ lit ''/'' @ format_05d (length (makedirs d)) @ lit ''_''
         @ sanitized_prefix U p @ lit ''_seed'' @ str_int sd @ lit ''.png''"
    by (simp add: save_image_def Let_def out_name_def prompt_name_sanitized)
  have c2: "(format_05d (length (makedirs d)) @ lit ''_'' @ sanitized_prefix U p
         @ lit ''_seed'' @ str_int sd @ lit ''.png'', img)
       \<in> set (makedirs (snd (save_image U d img p sd)))"
    using write_file_mem [of "out_name U (length (makedirs d)) p sd" img "makedirs d"]
    by (simp add: save_image_def Let_def out_name_def prompt_name_sanitized)
  have c6: "length (makedirs d) < 100000 \<longrightarrow> length (format_05d (length (makedirs d))) = 5"
    by (simp add: format_05d_length5)
  have c7: "100000 \<le> length (makedirs d) \<longrightarrow>
        format_05d (length (makedirs d)) = str_nat (length (makedirs d))
        \<and> 5 < length (format_05d (length (makedirs d)))"
    using length_str_nat_gt [of 5 "length (makedirs d)"] by (simp add: format_05d_wide)
  have c10: "sanitized_prefix U p \<noteq> [] \<longrightarrow>
        hd (sanitized_prefix U p) \<noteq> 95 \<and> last (sanitized_prefix U p) \<noteq> 95"
    using sanitized_prefix_ends by blast
  show ?thesis
    by (intro conjI)
       (fact c1, fact c2, fact format_05d_digits, fact format_05d_value, fact format_05d_length,
        fact c6, fact c7, fact sanitized_prefix_chars, fact sanitized_prefix_length, fact c10)
qed

theorem saved_file_name_witness:
  "length (makedirs (Some [(lit ''x'', 9)])) < 100000
   \<and> length (format_05d (length (makedirs (Some [(lit ''x'', 9)])))) = 5
   \<and> 100000 \<le> length (makedirs full_dir)
   \<and> format_05d (length (makedirs full_dir)) = str_nat (length (makedirs full_dir))
   \<and> 5 < length (format_05d (length (makedirs full_dir)))
   \<and> sanitized_prefix ascii_only (lit ''A man, \"portrait\"/'') \<noteq> []
   \<and> hd (sanitized_prefix ascii_only (lit ''A man, \"portrait\"/'')) \<noteq> 95
   \<and> last (sanitized_prefix ascii_only (lit ''A man, \"portrait\"/'')) \<noteq> 95
   \<and> fst (save_image ascii_only (Some [(lit ''x'', 9)]) 4 (lit ''A man, \"portrait\"/'') 42)
       = lit ''./results/00001_A_man___portrait_seed42.png''"
proof -
  have a: "length (makedirs (Some [(lit ''x'', 9)])) < 100000" by simp
  have a': "100000 \<le> length (makedirs full_dir)" by (simp add: full_dir_def)
  have b: "sanitized_prefix ascii_only (lit ''A man, \"portrait\"/'') \<noteq> []" by code_simp
  have c: "OUTPUT_DIR @ lit ''/'' @ format_05d (length (makedirs (Some [(lit ''x'', 9)])))
             @ lit ''_'' @ sanitized_prefix ascii_only (lit ''A man, \"portrait\"/'')
             @ lit ''_seed'' @ str_int 42 @ lit ''.png''
           = lit ''./results/00001_A_man___portrait_seed42.png''"
    by code_simp
  note t = saved_file_name [of ascii_only "Some [(lit ''x'', 9)]" 4
                               "lit ''A man, \"portrait\"/''" 42]
  note t' = saved_file_name [of ascii_only full_dir 4 "lit ''p''" 7]
  have f: "fst (save_image ascii_only (Some [(lit ''x'', 9)]) 4 (lit ''A man, \"portrait\"/'') 42)
       = lit ''./results/00001_A_man___portrait_seed42.png''"
    using t [THEN conjunct1] unfolding c .
  have l: "length (format_05d (length (makedirs (Some [(lit ''x'', 9)])))) = 5"
    using t [THEN conjunct2, THEN conjunct2, THEN conjunct2, THEN conjunct2, THEN conjunct2,
             THEN conjunct1] a
    by (rule mp)
  have w: "format_05d (length (makedirs full_dir)) = str_nat (length (makedirs full_dir))
           \<and> 5 < length (format_05d (length (makedirs full_dir)))"
    using t' [THEN conjunct2, THEN conjunct2, THEN conjunct2, THEN conjunct2, THEN conjunct2,
              THEN conjunct2, THEN conjunct1] a'
    by (rule mp)
  have h: "hd (sanitized_prefix ascii_only (lit ''A man, \"portrait\"/'')) \<noteq> 95
           \<and> last (sanitized_prefix ascii_only (lit ''A man, \"portrait\"/'')) \<noteq> 95"
    using t [THEN conjunct2, THEN conjunct2, THEN conjunct2, THEN conjunct2, THEN conjunct2,
             THEN conjunct2, THEN conjunct2, THEN conjunct2, THEN conjunct2] b
    by (rule mp)
  show ?thesis
    by (intro conjI)
       (fact a, fact l, fact a', fact w [THEN conjunct1], fact w [THEN conjunct2], fact b,
        fact h [THEN conjunct1], fact h [THEN conjunct2], fact f)
qed

text \<open>
  Claim C9. Saving \<open>N\<close> images one after the other, starting with the results directory
  absent or empty, leaves exactly \<open>N\<close> files: the directory exists after the first save,
  every save adds one file and replaces none (each image is there under its own name,
  and the names differ), and the names start with the indices \<open>0\<close> to \<open>N - 1\<close> in
  order, zero-padded to five digits, whatever the prompts are. No name contains a slash.
\<close>

theorem sequential_saves:
  assumes "d = None \<or> d = Some []"
  shows "makedirs (save_all U d reqs) = expected_files U 0 reqs
         \<and> length (makedirs (save_all U d reqs)) = length reqs
         \<and> map (\<lambda>f. takeWhile is_digit (fst f)) (makedirs (save_all U d reqs))
             = map format_05d [0..<length reqs]
         \<and> map (\<lambda>f. sequence_number (fst f)) (makedirs (save_all U d reqs))
             = [0..<length reqs]
         \<and> distinct (map fst (makedirs (save_all U d reqs)))
         \<and> map snd (makedirs (save_all U d reqs)) = map fst reqs
         \<and> list_all (\<lambda>f. 47 \<notin> set (fst f)) (makedirs (save_all U d reqs))
         \<and> (reqs \<noteq> [] \<longrightarrow> save_all U d reqs \<noteq> None)"
proof -
  from assms have "makedirs d = []" by (auto simp: makedirs_def)
  then have e: "makedirs (save_all U d reqs) = expected_files U 0 reqs"
    by (rule makedirs_save_all)
  have l: "length (makedirs (save_all U d reqs)) = length reqs"
    unfolding e by (simp add: expected_files_def)
  have n: "map (\<lambda>f. takeWhile is_digit (fst f)) (makedirs (save_all U d reqs))
             = map format_05d [0..<length reqs]"
    unfolding e using expected_files_numbers [of U 0 reqs] by simp
  have q: "map (\<lambda>f. sequence_number (fst f)) (makedirs (save_all U d reqs)) = [0..<length reqs]"
    unfolding e using expected_files_seq [of U 0 reqs] by simp
  have i: "distinct (map fst (makedirs (save_all U d reqs)))"
    unfolding e by (rule expected_files_distinct)
  have c: "map snd (makedirs (save_all U d reqs)) = map fst reqs"
    unfolding e by (rule expected_files_contents)
  have s: "list_all (\<lambda>f. 47 \<notin> set (fst f)) (makedirs (save_all U d reqs))"
    unfolding e by (rule expected_files_flat)
  have r: "reqs \<noteq> [] \<longrightarrow> save_all U d reqs \<noteq> None"
    using save_all_created [of reqs U d] by (rule impI)
  show ?thesis
    by (intro conjI) (fact e, fact l, fact n, fact q, fact i, fact c, fact s, fact r)
qed

theorem sequential_saves_witness:
  "makedirs (save_all (\<lambda>c. False) None three_saves)
     = [(lit ''00000_a_b_seed7.png'', 1), (lit ''00001_say__hi_seed7.png'', 2),
        (lit ''00002__seed7.png'', 3)]
   \<and> map (\<lambda>f. takeWhile is_digit (fst f)) (makedirs (save_all (\<lambda>c. False) None three_saves))
       = [lit ''00000'', lit ''00001'', lit ''00002'']
   \<and> save_all (\<lambda>c. False) None three_saves \<noteq> None"
proof -
  have d: "None = None \<or> None = Some ([] :: (pystr \<times> image) list)" by simp
  have e: "expected_files (\<lambda>c. False) 0 three_saves
             = [(lit ''00000_a_b_seed7.png'', 1), (lit ''00001_say__hi_seed7.png'', 2),
                (lit ''00002__seed7.png'', 3)]"
    by code_simp
  have n: "map format_05d [0..<length three_saves] = [lit ''00000'', lit ''00001'', lit ''00002'']"
    by code_simp
  have ne: "three_saves \<noteq> []" by (simp add: three_saves_def)
  note t = sequential_saves [OF d, of "\<lambda>c. False" three_saves]
  have f: "makedirs (save_all (\<lambda>c. False) None three_saves)
     = [(lit ''00000_a_b_seed7.png'', 1), (lit ''00001_say__hi_seed7.png'', 2),
        (lit ''00002__seed7.png'', 3)]"
    using t [THEN conjunct1] unfolding e .
  have m: "map (\<lambda>f. takeWhile is_digit (fst f)) (makedirs (save_all (\<lambda>c. False) None three_saves))
       = [lit ''00000'', lit ''00001'', lit ''00002'']"
    using t [THEN conjunct2, THEN conjunct2, THEN conjunct1] unfolding n .
  have c: "save_all (\<lambda>c. False) None three_saves \<noteq> None"
    using t [THEN conjunct2, THEN conjunct2, THEN conjunct2, THEN conjunct2, THEN conjunct2,
             THEN conjunct2, THEN conjunct2] ne
    by (rule mp)
  show ?thesis by (intro conjI) (fact f, fact m, fact c)
qed

text \<open>
  Claim C10 is about the order in which concurrent requests run. The source hands the
  handler to Gradio with \<^verbatim>\<open>concurrency_id="gpu"\<close> (line 318) and calls
  \<^verbatim>\<open>demo.queue()\<close> (line 362); the queue itself belongs to Gradio. The functions
  above are their sequential behaviour, one request at a time, which is what that queue
  is relied on to provide. No theorem is stated for it.
\<close>

end
